theory Spec2Isabelle
  imports Complex_Main "HOL-Library.Word" "HOL-Library.Sublist" "HOL-Library.Monad_Syntax"
begin

section \<open>The composition of SCJingleConverter (composition.cpp)\<close>

text \<open>
  The class \<open>Composition\<close> parses a musicxml file into parts, measures and notes, holds the
  configuration of the two haptic channels and sends the Jingle data to the controller.
  Each member function below is a function on the record of the object's members that
  returns the error code together with the members as the call leaves them.

  A result of type \<open>option\<close> is \<open>None\<close> where the C++ call has no defined result: a loop
  that never exits, an access out of the range of a container, \<open>top()\<close> of an empty
  stack, a signed overflow, or a conversion of a floating-point value that the target
  type cannot hold.
\<close>

subsection \<open>Data\<close>

type_synonym u32 = "32 word"

datatype ErrorCode = NO_ERROR | FILE_OPEN | XML_PARSE | CMD_ERR | BAD_IDX

datatype Channel = RIGHT | LEFT

text \<open>
  \<open>'f\<close> is the type \<open>float\<close>. A note has one frequency for each member of its chord.
\<close>

record 'f Note =
  frequencies :: "'f list"
  note_length :: 'f

record 'f Measure =
  "notes" :: "'f Note list"
  xmlDurationSum :: u32

record 'f Part =
  measures :: "'f Measure list"

text \<open>
  The two stacks \<open>backups\<close> and \<open>prevParts\<close> are lists whose head is the top.
\<close>

record 'f Composition =
  filename :: string
  parts :: "'f Part list"
  currDivisions :: u32
  bpm :: u32
  currPart :: u32
  octaveAdjust :: 'f
  partIdxR :: u32
  partIdxL :: u32
  measStartIdx :: u32
  measEndIdx :: u32
  backups :: "u32 list"
  prevParts :: "u32 list"

text \<open>\<open>Measure()\<close> and \<open>Part()\<close>, the default-constructed values.\<close>

definition new_Measure :: "'f Measure" where
  "new_Measure = \<lparr>notes = [], xmlDurationSum = 0\<rparr>"

definition new_Part :: "'f Part" where
  "new_Part = \<lparr>measures = []\<rparr>"

text \<open>\<open>xs[i]\<close> of a container: no result out of range.\<close>

definition elem_at :: "'a list \<Rightarrow> nat \<Rightarrow> 'a option" where
  "elem_at xs i = (if i < List.length xs then Some (xs ! i) else None)"

subsection \<open>What the file takes from Qt and from the C++ arithmetic\<close>

text \<open>
  The conversions between strings and numbers (\<open>QStringRef::toUInt\<close>, \<open>toInt\<close>,
  \<open>QString::number\<close>) and the arithmetic of \<open>double\<close> (type \<open>'d\<close>) and \<open>float\<close>
  (type \<open>'f\<close>) are not code of this file; every function that uses them takes them as
  the record \<open>platform\<close>. \<open>dlit\<close> and \<open>flit\<close> give the value of a decimal literal,
  \<open>d2f\<close> is \<open>static_cast<float>\<close> of a double, \<open>u2f\<close> and \<open>i2f\<close> are the conversions
  of an unsigned and of a signed integer to float, and \<open>f2u\<close> and
  \<open>f2i\<close> are \<open>static_cast<uint32_t>\<close> and \<open>static_cast<int>\<close> of a float, which have
  no result when the value is out of the range of the integer type.
\<close>

record ('d, 'f) platform =
  toUInt :: "string \<Rightarrow> u32"
  toInt :: "string \<Rightarrow> int"
  number :: "int \<Rightarrow> string"
  dlit :: "rat \<Rightarrow> 'd"
  dmul :: "'d \<Rightarrow> 'd \<Rightarrow> 'd"
  d2f :: "'d \<Rightarrow> 'f"
  flit :: "rat \<Rightarrow> 'f"
  u2f :: "u32 \<Rightarrow> 'f"
  i2f :: "int \<Rightarrow> 'f"
  fmul :: "'f \<Rightarrow> 'f \<Rightarrow> 'f"
  fdiv :: "'f \<Rightarrow> 'f \<Rightarrow> 'f"
  f2u :: "'f \<Rightarrow> u32 option"
  f2i :: "'f \<Rightarrow> int option"

subsection \<open>Configuration: getPartIdx, setMeasStartIdx, setMeasEndIdx\<close>

fun getPartIdx :: "'f Composition \<Rightarrow> Channel \<Rightarrow> u32" where
  "getPartIdx c RIGHT = partIdxR c"
| "getPartIdx c LEFT = partIdxL c"

definition getMeasStartIdx :: "'f Composition \<Rightarrow> u32" where
  "getMeasStartIdx c = measStartIdx c"

definition getMeasEndIdx :: "'f Composition \<Rightarrow> u32" where
  "getMeasEndIdx c = measEndIdx c"

definition getNumMeasures :: "'f Composition \<Rightarrow> nat" where
  "getNumMeasures c =
     (if List.length (parts c) = 0 then 0 else List.length (measures (parts c ! 0)))"

text \<open>
  \<open>setMeasStartIdx(measStartIdx)\<close>: the parameter is compared with the number of measures
  of \<open>parts[0]\<close>.
\<close>

definition setMeasStartIdx :: "'f Composition \<Rightarrow> u32 \<Rightarrow> ErrorCode \<times> 'f Composition" where
  "setMeasStartIdx c measStartIdx' =
     (if List.length (parts c) = 0 then (BAD_IDX, c)
      else if unat measStartIdx' \<ge> List.length (measures (parts c ! 0)) then (BAD_IDX, c)
      else (NO_ERROR, c\<lparr>measStartIdx := measStartIdx'\<rparr>))"

text \<open>
  \<open>setMeasEndIdx(measEndIdx)\<close>: the condition of the second test reads \<open>measStartIdx\<close>,
  which in this function is the member, not the parameter \<open>measEndIdx\<close>.
\<close>

definition setMeasEndIdx :: "'f Composition \<Rightarrow> u32 \<Rightarrow> ErrorCode \<times> 'f Composition" where
  "setMeasEndIdx c measEndIdx' =
     (if List.length (parts c) = 0 then (BAD_IDX, c)
      else if unat (measStartIdx c) \<ge> List.length (measures (parts c ! 0)) then (BAD_IDX, c)
      else (NO_ERROR, c\<lparr>measEndIdx := measEndIdx'\<rparr>))"

subsection \<open>getMemUsage\<close>

text \<open>
  The loop \<open>for (meas_idx = meas_start_idx; meas_idx < meas_end_idx; meas_idx++)\<close>, with
  the byte count in a \<open>uint32_t\<close>.
\<close>

function getMemUsage_loop ::
  "'f Part \<Rightarrow> 'f Part \<Rightarrow> u32 \<Rightarrow> u32 \<Rightarrow> u32 \<Rightarrow> u32 option" where
  "getMemUsage_loop part_r part_l meas_end_idx meas_idx byte_cnt =
     (if meas_idx < meas_end_idx then
        (case elem_at (measures part_r) (unat meas_idx) of
           None \<Rightarrow> None
         | Some meas_r \<Rightarrow>
            (case elem_at (measures part_l) (unat meas_idx) of
               None \<Rightarrow> None
             | Some meas_l \<Rightarrow>
                getMemUsage_loop part_r part_l meas_end_idx (meas_idx + 1)
                  (byte_cnt + of_nat (List.length (notes meas_r)) * 6
                            + of_nat (List.length (notes meas_l)) * 6)))
      else Some byte_cnt)"
  by pat_completeness auto
termination
proof (relation "measure (\<lambda>(part_r, part_l, meas_end_idx, meas_idx, byte_cnt).
                   unat meas_end_idx - unat meas_idx)")
  show "wf (measure (\<lambda>(part_r :: 'f Part, part_l :: 'f Part, meas_end_idx :: u32,
                       meas_idx :: u32, byte_cnt :: u32).
                   unat meas_end_idx - unat meas_idx))"
    by simp
next
  fix part_r part_l :: "'f Part" and meas_end_idx meas_idx byte_cnt :: u32
    and meas_r meas_l :: "'f Measure"
  assume lt: "meas_idx < meas_end_idx"
  then have "unat meas_idx < unat meas_end_idx"
    by (simp add: word_less_nat_alt)
  moreover have "unat meas_end_idx < 2 ^ 32"
    using unsigned_less [of meas_end_idx] by simp
  ultimately have "unat meas_idx + 1 < 2 ^ 32"
    by simp
  then have "unat (meas_idx + 1) = unat meas_idx + 1"
    by (simp add: unat_word_ariths)
  with \<open>unat meas_idx < unat meas_end_idx\<close> show
    "((part_r, part_l, meas_end_idx, meas_idx + 1,
       byte_cnt + of_nat (List.length (notes meas_r)) * 6
                + of_nat (List.length (notes meas_l)) * 6),
      (part_r, part_l, meas_end_idx, meas_idx, byte_cnt))
     \<in> measure (\<lambda>(part_r, part_l, meas_end_idx, meas_idx, byte_cnt).
                   unat meas_end_idx - unat meas_idx)"
    by simp
qed

declare getMemUsage_loop.simps [simp del]

text \<open>
  \<open>getMemUsage()\<close>: the two parts are read first, the loop adds up the bytes of the
  notes, and the function ends with \<open>return 0\<close>.
\<close>

definition getMemUsage :: "'f Composition \<Rightarrow> u32 option" where
  "getMemUsage c =
     (case elem_at (parts c) (unat (getPartIdx c RIGHT)) of
        None \<Rightarrow> None
      | Some part_r \<Rightarrow>
         (case elem_at (parts c) (unat (getPartIdx c LEFT)) of
            None \<Rightarrow> None
          | Some part_l \<Rightarrow>
             (case getMemUsage_loop part_r part_l (getMeasEndIdx c) (getMeasStartIdx c) 4 of
                None \<Rightarrow> None
              | Some byte_cnt \<Rightarrow> Some 0)))"

subsection \<open>noteToCmd and download\<close>

text \<open>The characters \<open>\n\<close> and \<open>\r\<close> of the command strings.\<close>

definition LF :: string where
  "LF = [CHR 0x0A]"

definition CR :: string where
  "CR = [CHR 0x0D]"

text \<open>
  \<open>noteToCmd(note, chan, jingleIdx, noteIdx, chordIdx)\<close>. The frequency is
  \<open>static_cast<uint32_t>(note.frequencies[chordIdx] * octaveAdjust)\<close>, or 0 when
  \<open>chordIdx\<close> is out of range, and the duration is
  \<open>static_cast<uint32_t>(note.length * 60 * 1000 / bpm)\<close>.
\<close>

definition noteToCmd ::
  "('d, 'f) platform \<Rightarrow> 'f Composition \<Rightarrow> 'f Note \<Rightarrow> Channel \<Rightarrow> u32 \<Rightarrow> u32 \<Rightarrow> u32
     \<Rightarrow> string option" where
  "noteToCmd pf c note chan jingleIdx noteIdx chordIdx =
     (let chan_str = (if chan = LEFT then ''left'' else ''right'');
          duty_cydle = (128 :: u32)
      in case (if unat chordIdx < List.length (frequencies note)
               then f2u pf (fmul pf (frequencies note ! unat chordIdx) (octaveAdjust c))
               else Some 0) of
           None \<Rightarrow> None
         | Some frequency \<Rightarrow>
            (case f2u pf (fdiv pf (fmul pf (fmul pf (note_length note) (i2f pf 60)) (i2f pf 1000))
                                  (u2f pf (bpm c))) of
               None \<Rightarrow> None
             | Some duration_ms \<Rightarrow>
                Some (''jingle note '' @ number pf (uint jingleIdx) @ '' '' @
                      chan_str @ '' '' @
                      number pf (uint noteIdx) @ '' '' @
                      number pf (uint duty_cydle) @ '' '' @
                      number pf (uint frequency) @ '' '' @
                      number pf (uint duration_ms) @ LF)))"

text \<open>
  The serial port is \<open>serial.send(cmd, resp)\<close> of the class \<open>SCSerial\<close>: a function
  \<open>send\<close> from the state of the port, the command and the response to expect, to the
  success of the exchange and the next state of the port. A \<open>link\<close> is the state of the
  port with the commands handed to \<open>send\<close> so far, in order.
\<close>

type_synonym 's transport = "'s \<Rightarrow> string \<Rightarrow> string \<Rightarrow> bool \<times> 's"

type_synonym 's link = "'s \<times> string list"

definition serial_send :: "'s transport \<Rightarrow> 's link \<Rightarrow> string \<Rightarrow> string \<Rightarrow> bool \<times> 's link" where
  "serial_send send lk cmd resp =
     (case send (fst lk) cmd resp of (ok, s') \<Rightarrow> (ok, (s', snd lk @ [cmd])))"

text \<open>
  The inner loop of \<open>download\<close> over the notes of one measure: each note is sent for the
  channel RIGHT and then for the channel LEFT, with chord index 0, and \<open>note_cnt\<close> is
  incremented.
\<close>

fun download_notes ::
  "('d, 'f) platform \<Rightarrow> 's transport \<Rightarrow> 'f Composition \<Rightarrow> u32 \<Rightarrow> 'f Note list
     \<Rightarrow> 's link \<Rightarrow> u32 \<Rightarrow> (ErrorCode \<times> 's link \<times> u32) option" where
  "download_notes pf send c jingleIdx [] lk note_cnt = Some (NO_ERROR, lk, note_cnt)"
| "download_notes pf send c jingleIdx (note # rest) lk note_cnt =
     (case noteToCmd pf c note RIGHT jingleIdx note_cnt 0 of
        None \<Rightarrow> None
      | Some cmd \<Rightarrow>
         (case serial_send send lk cmd (cmd @ CR @ ''Note updated successfully.'' @ LF @ CR) of
            (ok, lk1) \<Rightarrow>
              if \<not> ok then Some (CMD_ERR, lk1, note_cnt)
              else
                (case noteToCmd pf c note LEFT jingleIdx note_cnt 0 of
                   None \<Rightarrow> None
                 | Some cmd2 \<Rightarrow>
                    (case serial_send send lk1 cmd2
                            (cmd2 @ CR @ ''Note updated successfully.'' @ LF @ CR) of
                       (ok2, lk2) \<Rightarrow>
                         if \<not> ok2 then Some (CMD_ERR, lk2, note_cnt)
                         else download_notes pf send c jingleIdx rest lk2 (note_cnt + 1)))))"

text \<open>The outer loop over the measures of the part.\<close>

fun download_measures ::
  "('d, 'f) platform \<Rightarrow> 's transport \<Rightarrow> 'f Composition \<Rightarrow> u32 \<Rightarrow> 'f Measure list
     \<Rightarrow> 's link \<Rightarrow> u32 \<Rightarrow> (ErrorCode \<times> 's link \<times> u32) option" where
  "download_measures pf send c jingleIdx [] lk note_cnt = Some (NO_ERROR, lk, note_cnt)"
| "download_measures pf send c jingleIdx (meas # rest) lk note_cnt =
     (case download_notes pf send c jingleIdx (notes meas) lk note_cnt of
        None \<Rightarrow> None
      | Some (code, lk1, note_cnt1) \<Rightarrow>
          if code \<noteq> NO_ERROR then Some (code, lk1, note_cnt1)
          else download_measures pf send c jingleIdx rest lk1 note_cnt1)"

text \<open>The first loop: \<open>num_notes += meas.notes.size()\<close> over all measures of the part.\<close>

fun count_notes :: "'f Measure list \<Rightarrow> int \<Rightarrow> int" where
  "count_notes [] num_notes = num_notes"
| "count_notes (meas # rest) num_notes =
     count_notes rest (num_notes + int (List.length (notes meas)))"

text \<open>
  \<open>download(serial, jingleIdx)\<close>. The part is \<open>parts[parts_idx]\<close> with the constant
  \<open>parts_idx = 0\<close>, and both loops run over all its measures. The result is the error
  code and the link as the call leaves it.
\<close>

definition download ::
  "('d, 'f) platform \<Rightarrow> 's transport \<Rightarrow> 's link \<Rightarrow> 'f Composition \<Rightarrow> u32
     \<Rightarrow> (ErrorCode \<times> 's link) option" where
  "download pf send lk c jingleIdx =
     (let parts_idx = (0 :: nat) in
      if parts_idx \<ge> List.length (parts c) then Some (NO_ERROR, lk)
      else
        let part = parts c ! parts_idx;
            num_notes = count_notes (measures part) 0;
            cmd = ''jingle add '' @ number pf num_notes @ '' '' @ number pf num_notes @ LF
        in case serial_send send lk cmd (cmd @ CR @ ''Jingle added successfully.'' @ LF @ CR) of
             (ok, lk1) \<Rightarrow>
               if \<not> ok then Some (CMD_ERR, lk1)
               else
                 (case download_measures pf send c jingleIdx (measures part) lk1 0 of
                    None \<Rightarrow> None
                  | Some (code, lk2, note_cnt) \<Rightarrow> Some (code, lk2)))"

subsection \<open>The stream of xml tokens\<close>

text \<open>
  \<open>QXmlStreamReader\<close> is a cursor on the tokens of the file: \<open>readNext()\<close> moves to the
  next token, and \<open>tokenType()\<close>, \<open>name()\<close> and \<open>text()\<close> read the token under the
  cursor. Once the tokens are used up, every further \<open>readNext()\<close> gives \<open>Invalid\<close>.
\<close>

datatype TokenType = NoToken | Invalid | StartDocument | EndDocument | StartElement
  | EndElement | Characters | Comment | DTD | EntityReference | ProcessingInstruction

record Token =
  kind :: TokenType
  tname :: string
  ttext :: string

record XmlReader =
  token :: Token
  pending :: "Token list"

definition xml_tokenType :: "XmlReader \<Rightarrow> TokenType" where
  "xml_tokenType xml = kind (token xml)"

definition xml_name :: "XmlReader \<Rightarrow> string" where
  "xml_name xml = tname (token xml)"

definition xml_text :: "XmlReader \<Rightarrow> string" where
  "xml_text xml = ttext (token xml)"

definition readNext :: "XmlReader \<Rightarrow> XmlReader" where
  "readNext xml =
     (case pending xml of
        [] \<Rightarrow> \<lparr>token = \<lparr>kind = Invalid, tname = [], ttext = []\<rparr>, pending = []\<rparr>
      | t # ts \<Rightarrow> \<lparr>token = t, pending = ts\<rparr>)"

text \<open>The reader as \<open>xml.setDevice(&file)\<close> leaves it, and the tokens of the examples.\<close>

definition openReader :: "Token list \<Rightarrow> XmlReader" where
  "openReader toks = \<lparr>token = \<lparr>kind = NoToken, tname = [], ttext = []\<rparr>, pending = toks\<rparr>"

definition startElement :: "string \<Rightarrow> Token" where
  "startElement n = \<lparr>kind = StartElement, tname = n, ttext = []\<rparr>"

definition endElement :: "string \<Rightarrow> Token" where
  "endElement n = \<lparr>kind = EndElement, tname = n, ttext = []\<rparr>"

definition characters :: "string \<Rightarrow> Token" where
  "characters t = \<lparr>kind = Characters, tname = [], ttext = t\<rparr>"

definition startDocument :: Token where
  "startDocument = \<lparr>kind = StartDocument, tname = [], ttext = []\<rparr>"

definition endDocument :: Token where
  "endDocument = \<lparr>kind = EndDocument, tname = [], ttext = []\<rparr>"

subsection \<open>parseXmlPitch\<close>

text \<open>
  The loop \<open>while(1)\<close> over the child tokens of \<open>pitch\<close>. \<open>xml.text()[0]\<close> has no value
  when the text is empty.
\<close>

partial_function (option) parseXmlPitch_children ::
  "('d, 'f) platform \<Rightarrow> XmlReader \<Rightarrow> char \<Rightarrow> int \<Rightarrow> int
     \<Rightarrow> (XmlReader \<times> char \<times> int \<times> int) option" where
  "parseXmlPitch_children pf xml step alter octave =
     (let xml1 = readNext xml in
      if xml_tokenType xml1 = EndElement \<and> xml_name xml1 = ''pitch''
      then Some (xml1, step, alter, octave)
      else if xml_tokenType xml1 = StartElement then
        (if xml_name xml1 = ''step'' then
           (let xml2 = readNext xml1 in
            case xml_text xml2 of
              [] \<Rightarrow> None
            | ch # _ \<Rightarrow> parseXmlPitch_children pf xml2 ch alter octave)
         else if xml_name xml1 = ''alter'' then
           (let xml2 = readNext xml1 in
            parseXmlPitch_children pf xml2 step (toInt pf (xml_text xml2)) octave)
         else if xml_name xml1 = ''octave'' then
           (let xml2 = readNext xml1 in
            parseXmlPitch_children pf xml2 step alter (toInt pf (xml_text xml2)))
         else parseXmlPitch_children pf xml1 step alter octave)
      else parseXmlPitch_children pf xml1 step alter octave)"

text \<open>Arithmetic of \<open>int\<close>: a result out of the range of 32 bits is an overflow.\<close>

definition int32 :: "int \<Rightarrow> int option" where
  "int32 i = (if - (2 ^ 31) \<le> i \<and> i < 2 ^ 31 then Some i else None)"

text \<open>The chain of tests on \<open>step\<close>: the half steps of the letter above C.\<close>

definition step_half_steps :: "char \<Rightarrow> int option" where
  "step_half_steps step =
     (if step = CHR ''C'' then Some 0
      else if step = CHR ''D'' then Some 2
      else if step = CHR ''E'' then Some 4
      else if step = CHR ''F'' then Some 5
      else if step = CHR ''G'' then Some 7
      else if step = CHR ''A'' then Some 9
      else if step = CHR ''B'' then Some 11
      else None)"

definition twelth_root_of_two :: "('d, 'f) platform \<Rightarrow> 'd" where
  "twelth_root_of_two pf = dlit pf (1059463094359 / 1000000000000)"

definition C_0_FREQ :: "('d, 'f) platform \<Rightarrow> 'd" where
  "C_0_FREQ pf = dlit pf (1635 / 100)"

text \<open>The loop \<open>for (int cnt = 0; cnt < num_half_steps; cnt++) factor *= twelth_root_of_two\<close>.\<close>

function parseXmlPitch_factor :: "('d, 'f) platform \<Rightarrow> int \<Rightarrow> int \<Rightarrow> 'd \<Rightarrow> 'd" where
  "parseXmlPitch_factor pf num_half_steps cnt factor =
     (if cnt < num_half_steps
      then parseXmlPitch_factor pf num_half_steps (cnt + 1) (dmul pf factor (twelth_root_of_two pf))
      else factor)"
  by pat_completeness auto
termination
  by (relation "measure (\<lambda>(pf, num_half_steps, cnt, factor). nat (num_half_steps - cnt))") auto

declare parseXmlPitch_factor.simps [simp del]

text \<open>
  The second half of \<open>parseXmlPitch\<close>, from \<open>num_half_steps\<close> to \<open>freq\<close>: the frequency
  of the pitch, or the error code of an invalid step.
\<close>

definition parseXmlPitch_freq ::
  "('d, 'f) platform \<Rightarrow> char \<Rightarrow> int \<Rightarrow> int \<Rightarrow> (ErrorCode + 'f) option" where
  "parseXmlPitch_freq pf step alter octave =
     (case int32 (octave * 12) of
        None \<Rightarrow> None
      | Some octave_steps \<Rightarrow>
         (case int32 (octave_steps + alter) of
            None \<Rightarrow> None
          | Some num_half_steps0 \<Rightarrow>
             (case step_half_steps step of
                None \<Rightarrow> Some (Inl XML_PARSE)
              | Some k \<Rightarrow>
                 (case int32 (num_half_steps0 + k) of
                    None \<Rightarrow> None
                  | Some num_half_steps \<Rightarrow>
                     Some (Inr (d2f pf (dmul pf (C_0_FREQ pf)
                                  (parseXmlPitch_factor pf num_half_steps 0 (dlit pf 1)))))))))"

text \<open>\<open>parseXmlPitch(xml, freq)\<close>: \<open>freq\<close> is written on success only.\<close>

definition parseXmlPitch ::
  "('d, 'f) platform \<Rightarrow> XmlReader \<Rightarrow> 'f \<Rightarrow> (XmlReader \<times> ErrorCode \<times> 'f) option" where
  "parseXmlPitch pf xml freq =
     (if xml_name xml \<noteq> ''pitch'' \<or> xml_tokenType xml \<noteq> StartElement
      then Some (xml, XML_PARSE, freq)
      else
        (case parseXmlPitch_children pf xml (CHR 0x00) 0 0 of
           None \<Rightarrow> None
         | Some (xml', step, alter, octave) \<Rightarrow>
            (case parseXmlPitch_freq pf step alter octave of
               None \<Rightarrow> None
             | Some (Inl code) \<Rightarrow> Some (xml', code, freq)
             | Some (Inr freq') \<Rightarrow> Some (xml', NO_ERROR, freq'))))"

subsection \<open>The two stacks\<close>

text \<open>\<open>backups.pop(); currPart = prevParts.top(); prevParts.pop();\<close>\<close>

definition popBackup :: "'f Composition \<Rightarrow> 'f Composition option" where
  "popBackup c =
     (case backups c of
        [] \<Rightarrow> None
      | b # bs \<Rightarrow>
         (case prevParts c of
            [] \<Rightarrow> None
          | p # ps \<Rightarrow> Some (c\<lparr>backups := bs, currPart := p, prevParts := ps\<rparr>)))"

text \<open>
  The loop \<open>while(backups.size())\<close> at the start of a measure and at the end of a part:
  it returns \<open>XML_PARSE\<close> at the first backup whose counter is not 0.
\<close>

function drainBackups :: "'f Composition \<Rightarrow> (ErrorCode \<times> 'f Composition) option" where
  "drainBackups c =
     (case backups c of
        [] \<Rightarrow> Some (NO_ERROR, c)
      | b # bs \<Rightarrow>
          if b \<noteq> 0 then Some (XML_PARSE, c)
          else (case popBackup c of
                  None \<Rightarrow> None
                | Some c' \<Rightarrow> drainBackups c'))"
  by pat_completeness auto
termination
  by (relation "measure (\<lambda>c. List.length (backups c))")
     (auto simp: popBackup_def split: list.splits)

declare drainBackups.simps [simp del]

text \<open>
  The loop \<open>for (parts_idx = currPart; parts_idx < parts.size(); parts_idx++)\<close> that gives
  a new measure to every part from the current one on.
\<close>

function addMeasures :: "'f Part list \<Rightarrow> nat \<Rightarrow> 'f Part list" where
  "addMeasures ps parts_idx =
     (if parts_idx < List.length ps
      then addMeasures
             (ps[parts_idx := (ps ! parts_idx)\<lparr>measures := measures (ps ! parts_idx) @ [new_Measure]\<rparr>])
             (parts_idx + 1)
      else ps)"
  by pat_completeness auto
termination
  by (relation "measure (\<lambda>(ps, parts_idx). List.length ps - parts_idx)") auto

declare addMeasures.simps [simp del]

subsection \<open>parseXmlBackup\<close>

partial_function (option) parseXmlBackup_children ::
  "('d, 'f) platform \<Rightarrow> XmlReader \<Rightarrow> u32 \<Rightarrow> (XmlReader \<times> u32) option" where
  "parseXmlBackup_children pf xml duration =
     (let xml1 = readNext xml in
      if xml_tokenType xml1 = EndElement \<and> xml_name xml1 = ''backup''
      then Some (xml1, duration)
      else if xml_tokenType xml1 = StartElement then
        (if xml_name xml1 = ''duration'' then
           (let xml2 = readNext xml1 in
            parseXmlBackup_children pf xml2 (toUInt pf (xml_text xml2)))
         else parseXmlBackup_children pf xml1 duration)
      else parseXmlBackup_children pf xml1 duration)"

text \<open>
  The end of \<open>parseXmlBackup\<close>, after the child tokens: the duration is pushed on
  \<open>backups\<close>, the current part on \<open>prevParts\<close>, and the current part moves on by one.
\<close>

definition parseXmlBackup_push :: "u32 \<Rightarrow> 'f Composition \<Rightarrow> ErrorCode \<times> 'f Composition" where
  "parseXmlBackup_push duration c =
     (if duration = 0 then (XML_PARSE, c)
      else (NO_ERROR, c\<lparr>backups := duration # backups c,
                         prevParts := currPart c # prevParts c,
                         currPart := currPart c + 1\<rparr>))"

definition parseXmlBackup ::
  "('d, 'f) platform \<Rightarrow> XmlReader \<Rightarrow> 'f Composition
     \<Rightarrow> (XmlReader \<times> ErrorCode \<times> 'f Composition) option" where
  "parseXmlBackup pf xml c =
     (if xml_name xml \<noteq> ''backup'' \<or> xml_tokenType xml \<noteq> StartElement
      then Some (xml, XML_PARSE, c)
      else
        (case parseXmlBackup_children pf xml 0 of
           None \<Rightarrow> None
         | Some (xml', duration) \<Rightarrow>
            (case parseXmlBackup_push duration c of (code, c') \<Rightarrow> Some (xml', code, c'))))"

subsection \<open>parseXmlNote\<close>

text \<open>
  The start of \<open>parseXmlNote\<close>: a backup whose counter has reached 0 is closed.
\<close>

definition parseXmlNote_enter :: "'f Composition \<Rightarrow> 'f Composition option" where
  "parseXmlNote_enter c =
     (case backups c of
        [] \<Rightarrow> Some c
      | b # bs \<Rightarrow> if b = 0 then popBackup c else Some c)"

text \<open>
  The loop over the child tokens of \<open>note\<close>, with the locals \<open>raw_xml_duration\<close>,
  \<open>length\<close>, \<open>frequency\<close> and \<open>isChord\<close>.
\<close>

partial_function (option) parseXmlNote_children ::
  "('d, 'f) platform \<Rightarrow> 'f Composition \<Rightarrow> XmlReader \<Rightarrow> u32 \<Rightarrow> 'f \<Rightarrow> 'f \<Rightarrow> bool
     \<Rightarrow> (XmlReader \<times> ErrorCode \<times> u32 \<times> 'f \<times> 'f \<times> bool) option" where
  "parseXmlNote_children pf c xml raw_xml_duration length' frequency isChord =
     (let xml1 = readNext xml in
      if xml_tokenType xml1 = EndElement \<and> xml_name xml1 = ''note''
      then Some (xml1, NO_ERROR, raw_xml_duration, length', frequency, isChord)
      else if xml_tokenType xml1 = StartElement then
        (if xml_name xml1 = ''pitch'' then
           (case parseXmlPitch pf xml1 frequency of
              None \<Rightarrow> None
            | Some (xml2, code, frequency') \<Rightarrow>
                if code \<noteq> NO_ERROR
                then Some (xml2, code, raw_xml_duration, length', frequency', isChord)
                else parseXmlNote_children pf c xml2 raw_xml_duration length' frequency' isChord)
         else if xml_name xml1 = ''duration'' then
           (let xml2 = readNext xml1 in
            parseXmlNote_children pf c xml2 (toUInt pf (xml_text xml2))
              (fdiv pf (u2f pf (toUInt pf (xml_text xml2))) (u2f pf (currDivisions c)))
              frequency isChord)
         else if xml_name xml1 = ''chord'' then
           parseXmlNote_children pf c xml1 raw_xml_duration length' frequency True
         else parseXmlNote_children pf c xml1 raw_xml_duration length' frequency isChord)
      else parseXmlNote_children pf c xml1 raw_xml_duration length' frequency isChord)"

text \<open>
  The current part is made to exist and to have a measure; \<open>parts[currPart]\<close> has no
  value when \<open>currPart\<close> is still out of range after one part has been added.
\<close>

definition openMeasure :: "'f Composition \<Rightarrow> 'f Composition option" where
  "openMeasure c =
     (let parts1 = (if unat (currPart c) \<ge> List.length (parts c)
                    then parts c @ [new_Part] else parts c)
      in case elem_at parts1 (unat (currPart c)) of
           None \<Rightarrow> None
         | Some part \<Rightarrow>
             Some (c\<lparr>parts := parts1[unat (currPart c) :=
                       part\<lparr>measures := (if List.length (measures part) < 1
                                          then measures part @ [new_Measure]
                                          else measures part)\<rparr>]\<rparr>))"

text \<open>\<open>meas\<close>, the reference to \<open>part.measures.back()\<close>, read and written.\<close>

definition currMeasure :: "'f Composition \<Rightarrow> 'f Measure" where
  "currMeasure c = last (measures (parts c ! unat (currPart c)))"

definition setCurrMeasure :: "'f Composition \<Rightarrow> 'f Measure \<Rightarrow> 'f Composition" where
  "setCurrMeasure c meas =
     c\<lparr>parts := (parts c)[unat (currPart c) :=
          (parts c ! unat (currPart c))
            \<lparr>measures := butlast (measures (parts c ! unat (currPart c))) @ [meas]\<rparr>]\<rparr>"

text \<open>
  The end of \<open>parseXmlNote\<close>, after the child tokens. A chord member goes to the last
  note of the measure; the comparison of the two lengths, each converted to \<open>int\<close>,
  only writes a warning. Any other note is appended to the measure, and the counter on
  top of \<open>backups\<close> is reduced by its duration.
\<close>

definition parseXmlNote_store ::
  "('d, 'f) platform \<Rightarrow> u32 \<Rightarrow> 'f \<Rightarrow> 'f \<Rightarrow> bool \<Rightarrow> 'f Composition
     \<Rightarrow> (ErrorCode \<times> 'f Composition) option" where
  "parseXmlNote_store pf raw_xml_duration length' frequency isChord c =
     (case openMeasure c of
        None \<Rightarrow> None
      | Some c1 \<Rightarrow>
         (let meas = currMeasure c1 in
          if isChord then
            (if List.length (notes meas) < 1 then Some (XML_PARSE, c1)
             else
               (let note = last (notes meas) in
                if f2i pf (note_length note) = None \<or> f2i pf length' = None then None
                else Some (NO_ERROR,
                       setCurrMeasure c1
                         (meas\<lparr>notes := butlast (notes meas) @
                            [note\<lparr>frequencies := frequencies note @ [frequency]\<rparr>]\<rparr>))))
          else
            (let note = \<lparr>frequencies = [frequency], note_length = length'\<rparr>;
                 c2 = setCurrMeasure c1
                        (meas\<lparr>notes := notes meas @ [note],
                               xmlDurationSum := xmlDurationSum meas + raw_xml_duration\<rparr>)
             in case backups c2 of
                  [] \<Rightarrow> Some (NO_ERROR, c2)
                | backup_dur # bs \<Rightarrow>
                    if raw_xml_duration > backup_dur then Some (XML_PARSE, c2)
                    else Some (NO_ERROR, c2\<lparr>backups := (backup_dur - raw_xml_duration) # bs\<rparr>))))"

definition parseXmlNote ::
  "('d, 'f) platform \<Rightarrow> XmlReader \<Rightarrow> 'f Composition
     \<Rightarrow> (XmlReader \<times> ErrorCode \<times> 'f Composition) option" where
  "parseXmlNote pf xml c =
     (if xml_name xml \<noteq> ''note'' \<or> xml_tokenType xml \<noteq> StartElement
      then Some (xml, XML_PARSE, c)
      else
        (case parseXmlNote_enter c of
           None \<Rightarrow> None
         | Some c1 \<Rightarrow>
            (case parseXmlNote_children pf c1 xml 0 (flit pf 0) (flit pf 0) False of
               None \<Rightarrow> None
             | Some (xml', code, raw_xml_duration, length', frequency, isChord) \<Rightarrow>
                 if code \<noteq> NO_ERROR then Some (xml', code, c1)
                 else
                   (case parseXmlNote_store pf raw_xml_duration length' frequency isChord c1 of
                      None \<Rightarrow> None
                    | Some (code', c2) \<Rightarrow> Some (xml', code', c2)))))"

subsection \<open>parse\<close>

text \<open>The start of a measure: the backups are closed, then the measures are added.\<close>

definition parse_measure :: "'f Composition \<Rightarrow> (ErrorCode \<times> 'f Composition) option" where
  "parse_measure c =
     (case drainBackups c of
        None \<Rightarrow> None
      | Some (code, c1) \<Rightarrow>
          if code \<noteq> NO_ERROR then Some (code, c1)
          else Some (NO_ERROR, c1\<lparr>parts := addMeasures (parts c1) (unat (currPart c1))\<rparr>))"

text \<open>The end of a part: the backups are closed, then the current part moves on.\<close>

definition parse_part_end :: "'f Composition \<Rightarrow> (ErrorCode \<times> 'f Composition) option" where
  "parse_part_end c =
     (case drainBackups c of
        None \<Rightarrow> None
      | Some (code, c1) \<Rightarrow>
          if code \<noteq> NO_ERROR then Some (code, c1)
          else Some (NO_ERROR, c1\<lparr>currPart := currPart c1 + 1\<rparr>))"

text \<open>
  The body of the loop of \<open>parse\<close>: what is done with the token under the cursor. The
  result is the reader, the error code that ends the parse or \<open>NO_ERROR\<close> to go on,
  and the members.
\<close>

definition parse_token ::
  "('d, 'f) platform \<Rightarrow> XmlReader \<Rightarrow> 'f Composition
     \<Rightarrow> (XmlReader \<times> ErrorCode \<times> 'f Composition) option" where
  "parse_token pf xml c =
     (if xml_tokenType xml = StartElement then
        (if xml_name xml = ''note'' then parseXmlNote pf xml c
         else if xml_name xml = ''backup'' then parseXmlBackup pf xml c
         else if xml_name xml = ''measure'' then
           (case parse_measure c of
              None \<Rightarrow> None
            | Some (code, c') \<Rightarrow> Some (xml, code, c'))
         else if xml_name xml = ''per-minute'' then
           Some (readNext xml, NO_ERROR, c\<lparr>bpm := toUInt pf (xml_text (readNext xml))\<rparr>)
         else if xml_name xml = ''divisions'' then
           Some (readNext xml, NO_ERROR,
                 c\<lparr>currDivisions := toUInt pf (xml_text (readNext xml))\<rparr>)
         else Some (xml, NO_ERROR, c))
      else if xml_tokenType xml = EndElement then
        (if xml_name xml = ''part'' then
           (case parse_part_end c of
              None \<Rightarrow> None
            | Some (code, c') \<Rightarrow> Some (xml, code, c'))
         else Some (xml, NO_ERROR, c))
      else Some (xml, NO_ERROR, c))"

text \<open>
  The loop \<open>while (xml.readNext() != QXmlStreamReader::EndDocument)\<close>: it ends with
  \<open>NO_ERROR\<close> at the end of the document and with the error code of the first token
  that fails.
\<close>

partial_function (option) parse_loop ::
  "('d, 'f) platform \<Rightarrow> XmlReader \<Rightarrow> 'f Composition \<Rightarrow> (ErrorCode \<times> 'f Composition) option" where
  "parse_loop pf xml c =
     (if xml_tokenType (readNext xml) = EndDocument then Some (NO_ERROR, c)
      else
        (case parse_token pf (readNext xml) c of
           None \<Rightarrow> None
         | Some (xml', code, c') \<Rightarrow>
             if code \<noteq> NO_ERROR then Some (code, c') else parse_loop pf xml' c'))"

text \<open>
  \<open>parse()\<close>. The file is the list of its tokens, or \<open>None\<close> when it cannot be opened.
  The parts are cleared and the current part is reset; the two stacks are left as they
  are.
\<close>

definition parse ::
  "('d, 'f) platform \<Rightarrow> Token list option \<Rightarrow> 'f Composition
     \<Rightarrow> (ErrorCode \<times> 'f Composition) option" where
  "parse pf file c =
     (let c0 = c\<lparr>parts := [], currPart := 0\<rparr> in
      case file of
        None \<Rightarrow> Some (FILE_OPEN, c0)
      | Some toks \<Rightarrow> parse_loop pf (openReader toks) c0)"

subsection \<open>A platform with exact arithmetic\<close>

text \<open>
  The examples run on a platform whose \<open>double\<close> and \<open>float\<close> compute without rounding:
  a value is a real number, or \<open>NotFinite\<close> after a division by zero. Numbers are read
  and written in decimal; a text that is not a number in range converts to 0, as
  \<open>toUInt\<close> and \<open>toInt\<close> do when the conversion fails.
\<close>

datatype exact = Finite real | NotFinite

fun exact_mul :: "exact \<Rightarrow> exact \<Rightarrow> exact" where
  "exact_mul (Finite a) (Finite b) = Finite (a * b)"
| "exact_mul _ _ = NotFinite"

fun exact_div :: "exact \<Rightarrow> exact \<Rightarrow> exact" where
  "exact_div (Finite a) (Finite b) = (if b = 0 then NotFinite else Finite (a / b))"
| "exact_div _ _ = NotFinite"

fun exact_to_u32 :: "exact \<Rightarrow> u32 option" where
  "exact_to_u32 (Finite a) =
     (let t = (if 0 \<le> a then \<lfloor>a\<rfloor> else \<lceil>a\<rceil>)
      in if 0 \<le> t \<and> t < 2 ^ 32 then Some (word_of_int t) else None)"
| "exact_to_u32 NotFinite = None"

fun exact_to_int :: "exact \<Rightarrow> int option" where
  "exact_to_int (Finite a) =
     (let t = (if 0 \<le> a then \<lfloor>a\<rfloor> else \<lceil>a\<rceil>)
      in if - (2 ^ 31) \<le> t \<and> t < 2 ^ 31 then Some t else None)"
| "exact_to_int NotFinite = None"

fun digits_value :: "string \<Rightarrow> nat \<Rightarrow> nat option" where
  "digits_value [] acc = Some acc"
| "digits_value (ch # s) acc =
     (if ch \<in> set ''0123456789'' then digits_value s (10 * acc + (of_char ch - 48))
      else None)"

definition decimal_nat :: "string \<Rightarrow> nat option" where
  "decimal_nat s = (if s = [] then None else digits_value s 0)"

definition decimal_toUInt :: "string \<Rightarrow> u32" where
  "decimal_toUInt s =
     (case decimal_nat s of
        None \<Rightarrow> 0
      | Some n \<Rightarrow> if n < 2 ^ 32 then of_nat n else 0)"

definition decimal_toInt :: "string \<Rightarrow> int" where
  "decimal_toInt s =
     (case s of
        [] \<Rightarrow> 0
      | ch # r \<Rightarrow>
          if ch = CHR ''-'' then
            (case decimal_nat r of
               None \<Rightarrow> 0
             | Some n \<Rightarrow> if n \<le> 2 ^ 31 then - int n else 0)
          else
            (case decimal_nat s of
               None \<Rightarrow> 0
             | Some n \<Rightarrow> if n < 2 ^ 31 then int n else 0))"

function nat_number :: "nat \<Rightarrow> string" where
  "nat_number n =
     (if n < 10 then [''0123456789'' ! n]
      else nat_number (n div 10) @ [''0123456789'' ! (n mod 10)])"
  by pat_completeness auto
termination
  by (relation "measure id") auto

declare nat_number.simps [simp del]

definition decimal_number :: "int \<Rightarrow> string" where
  "decimal_number i = (if i < 0 then CHR ''-'' # nat_number (nat (- i)) else nat_number (nat i))"

definition exact_platform :: "(exact, exact) platform" where
  "exact_platform =
     \<lparr>toUInt = decimal_toUInt, toInt = decimal_toInt, number = decimal_number,
      dlit = (\<lambda>q. Finite (of_rat q)), dmul = exact_mul, d2f = (\<lambda>x. x),
      flit = (\<lambda>q. Finite (of_rat q)), u2f = (\<lambda>w. Finite (real (unat w))),
      i2f = (\<lambda>i. Finite (of_int i)), fmul = exact_mul, fdiv = exact_div,
      f2u = exact_to_u32, f2i = exact_to_int\<rparr>"

text \<open>A serial port without state that acknowledges every command.\<close>

definition accept_all :: "unit transport" where
  "accept_all s cmd resp = (True, s)"

text \<open>A serial port that counts the commands and acknowledges every one of them.\<close>

definition counting :: "nat transport" where
  "counting s cmd resp = (True, Suc s)"

subsection \<open>The constructor\<close>

text \<open>\<open>Composition(filename)\<close>: the members as the constructor leaves them.\<close>

definition Composition_new :: "('d, 'f) platform \<Rightarrow> string \<Rightarrow> 'f Composition" where
  "Composition_new pf name =
     \<lparr>filename = name, parts = [], currDivisions = 1, bpm = 100, currPart = 0,
      octaveAdjust = flit pf 1, partIdxR = 0, partIdxL = 0, measStartIdx = 0, measEndIdx = 0,
      backups = [], prevParts = []\<rparr>"

subsection \<open>Notions of the properties\<close>

text \<open>The two stacks have the same depth.\<close>

definition stacks_aligned :: "'f Composition \<Rightarrow> bool" where
  "stacks_aligned c = (List.length (backups c) = List.length (prevParts c))"

text \<open>The half steps of the seven step letters, as a table.\<close>

definition step_table :: "(char \<times> int) list" where
  "step_table = [(CHR ''C'', 0), (CHR ''D'', 2), (CHR ''E'', 4), (CHR ''F'', 5),
                 (CHR ''G'', 7), (CHR ''A'', 9), (CHR ''B'', 11)]"

text \<open>
  The tokens of the file \<open><backup><duration>4</duration></backup>\<close>.
\<close>

definition backup_only :: "Token list" where
  "backup_only =
     [startDocument, startElement ''backup'', startElement ''duration'', characters ''4'',
      endElement ''duration'', endElement ''backup'', endDocument]"

text \<open>
  The tokens of a file with one part of one measure: a note C of octave 0 with
  duration 4, a backup of duration 4, and a second note C for the next part.
\<close>

definition two_voices :: "Token list" where
  "two_voices =
     [startDocument, startElement ''part'', startElement ''measure'',
      startElement ''note'',
        startElement ''pitch'', startElement ''step'', characters ''C'', endElement ''step'',
          startElement ''octave'', characters ''0'', endElement ''octave'', endElement ''pitch'',
        startElement ''duration'', characters ''4'', endElement ''duration'',
      endElement ''note'',
      startElement ''backup'', startElement ''duration'', characters ''4'',
        endElement ''duration'', endElement ''backup'',
      startElement ''note'',
        startElement ''pitch'', startElement ''step'', characters ''C'', endElement ''step'',
          startElement ''octave'', characters ''0'', endElement ''octave'', endElement ''pitch'',
        startElement ''duration'', characters ''4'', endElement ''duration'',
      endElement ''note'',
      endElement ''measure'', endElement ''part'', endDocument]"

text \<open>
  The tokens of \<open><pitch><step>C</step><alter>-1</alter><octave>0</octave></pitch>\<close>,
  C flat of octave 0.
\<close>

definition c_flat_pitch :: "Token list" where
  "c_flat_pitch =
     [startElement ''pitch'', startElement ''step'', characters ''C'', endElement ''step'',
      startElement ''alter'', characters ''-1'', endElement ''alter'',
      startElement ''octave'', characters ''0'', endElement ''octave'', endElement ''pitch'']"

text \<open>
  The tokens of a note: the step letter of its pitch in octave 0, its duration, and
  the chord marker when \<open>chord\<close> is set.
\<close>

definition note_tokens :: "bool \<Rightarrow> string \<Rightarrow> string \<Rightarrow> Token list" where
  "note_tokens chord step duration =
     [startElement ''note''] @
     (if chord then [startElement ''chord'', endElement ''chord''] else []) @
     [startElement ''pitch'', startElement ''step'', characters step, endElement ''step'',
        startElement ''octave'', characters ''0'', endElement ''octave'', endElement ''pitch'',
      startElement ''duration'', characters duration, endElement ''duration'',
      endElement ''note'']"

text \<open>The reader once all tokens of a note have been read.\<close>

definition after_note :: XmlReader where
  "after_note = \<lparr>token = endElement ''note'', pending = []\<rparr>"


subsection \<open>An example composition\<close>

text \<open>
  One part with two measures of one note each; the channels are configured to the
  measures from 0 to 1, the second bound excluded.
\<close>

definition two_measures :: "exact Composition" where
  "two_measures =
     \<lparr>filename = ''song.musicxml'',
      parts = [\<lparr>measures =
                 [\<lparr>notes = [\<lparr>frequencies = [Finite 440], note_length = Finite 1\<rparr>],
                   xmlDurationSum = 4\<rparr>,
                  \<lparr>notes = [\<lparr>frequencies = [Finite 220], note_length = Finite 2\<rparr>],
                   xmlDurationSum = 8\<rparr>]\<rparr>],
      currDivisions = 4, bpm = 100, currPart = 1, octaveAdjust = Finite 1,
      partIdxR = 0, partIdxL = 0, measStartIdx = 0, measEndIdx = 1,
      backups = [], prevParts = []\<rparr>"

section \<open>Properties\<close>

subsection \<open>getMemUsage\<close>

text \<open>
  Whatever the loop has counted, \<open>getMemUsage\<close> returns 0 when it returns.
\<close>

lemma getMemUsage_is_zero: "getMemUsage c = Some r \<Longrightarrow> r = 0"
  by (auto simp: getMemUsage_def split: option.splits)

text \<open>
  C1. The specification says that \<open>getMemUsage\<close> returns 4 bytes of header plus 6 bytes for each
  note of the configured measures of both channels. On the example the loop counts
  \<open>4 + 6 + 6 = 16\<close> bytes in \<open>byte_cnt\<close>, and the function returns 0.
\<close>

theorem getMemUsage_returns_zero:
  "getMemUsage_loop (parts two_measures ! 0) (parts two_measures ! 0) 1 0 4 = Some 16
   \<and> getMemUsage two_measures = Some 0"
  by (simp add: getMemUsage_def two_measures_def getMeasEndIdx_def getMeasStartIdx_def
      elem_at_def getMemUsage_loop.simps)

subsection \<open>setMeasStartIdx and setMeasEndIdx\<close>

text \<open>\<open>setMeasStartIdx\<close> stores an index below the number of measures and no other.\<close>

lemma setMeasStartIdx_checked:
  "setMeasStartIdx c i =
     (if unat i < getNumMeasures c then (NO_ERROR, c\<lparr>measStartIdx := i\<rparr>) else (BAD_IDX, c))"
  by (auto simp: setMeasStartIdx_def getNumMeasures_def)

text \<open>
  C3. The specification says that both setters reject an index greater than or equal to the number
  of measures of the first part. The example has 2 measures, and \<open>setMeasEndIdx\<close>
  stores the index 7 with \<open>NO_ERROR\<close>.
\<close>

theorem setMeasEndIdx_beyond_count:
  "getNumMeasures two_measures = 2
   \<and> setMeasEndIdx two_measures 7 = (NO_ERROR, two_measures\<lparr>measEndIdx := 7\<rparr>)"
  by (simp add: setMeasEndIdx_def getNumMeasures_def two_measures_def)

subsection \<open>download\<close>

text \<open>
  C2. The specification says that the allocate command carries the number of notes of the
  configured measures of the part of the right channel, and that the note commands
  cover these measures. The example is configured to its first measure, which has one
  note; \<open>download\<close> allocates 2 notes and sends both notes of the part, each for the
  right and then for the left channel.
\<close>

theorem download_ignores_range:
  "measStartIdx two_measures = 0 \<and> measEndIdx two_measures = 1 \<and>
   download exact_platform accept_all ((), []) two_measures 0 =
     Some (NO_ERROR, (),
       [''jingle add 2 2'' @ LF,
        ''jingle note 0 right 0 128 440 600'' @ LF,
        ''jingle note 0 left 0 128 440 600'' @ LF,
        ''jingle note 0 right 1 128 220 1200'' @ LF,
        ''jingle note 0 left 1 128 220 1200'' @ LF])"
  by (simp add: download_def two_measures_def exact_platform_def accept_all_def
      serial_send_def noteToCmd_def decimal_number_def nat_number.simps)

text \<open>
  C10. Without parts, \<open>download\<close> returns \<open>NO_ERROR\<close> and leaves the link as it was:
  nothing is sent, the allocate command included.
\<close>

theorem download_no_parts:
  "parts c = [] \<Longrightarrow> download pf send lk c jingleIdx = Some (NO_ERROR, lk)"
  by (simp add: download_def)

theorem download_no_parts_witness:
  "parts (two_measures\<lparr>parts := []\<rparr>) = [] \<and>
   download exact_platform accept_all ((), []) (two_measures\<lparr>parts := []\<rparr>) 5
     = Some (NO_ERROR, ((), []))"
  using download_no_parts [of "two_measures\<lparr>parts := []\<rparr>" exact_platform accept_all "((), [])" 5]
  by simp

text \<open>
  The commands depend on the composition through its parts, \<open>bpm\<close> and \<open>octaveAdjust\<close>
  only.
\<close>

lemma noteToCmd_cong:
  "bpm c1 = bpm c2 \<Longrightarrow> octaveAdjust c1 = octaveAdjust c2 \<Longrightarrow>
   noteToCmd pf c1 n0 chan j n k = noteToCmd pf c2 n0 chan j n k"
  unfolding noteToCmd_def by (simp only:)

lemma download_notes_cong:
  "bpm c1 = bpm c2 \<Longrightarrow> octaveAdjust c1 = octaveAdjust c2 \<Longrightarrow>
   download_notes pf send c1 j ns lk cnt = download_notes pf send c2 j ns lk cnt"
proof (induction ns arbitrary: lk cnt)
  case Nil
  then show ?case by simp
next
  case (Cons n0 ns)
  from Cons.prems
  have eq: "\<And>chan n k. noteToCmd pf c1 n0 chan j n k = noteToCmd pf c2 n0 chan j n k"
    by (rule noteToCmd_cong)
  show ?case
    by (simp add: eq Cons.IH [OF Cons.prems] split: option.splits prod.splits)
qed

lemma download_measures_cong:
  "bpm c1 = bpm c2 \<Longrightarrow> octaveAdjust c1 = octaveAdjust c2 \<Longrightarrow>
   download_measures pf send c1 j ms lk cnt = download_measures pf send c2 j ms lk cnt"
proof (induction ms arbitrary: lk cnt)
  case Nil
  then show ?case by simp
next
  case (Cons m ms)
  show ?case
    by (simp add: download_notes_cong [OF Cons.prems] Cons.IH [OF Cons.prems]
        split: option.splits prod.splits)
qed

lemma download_cong:
  assumes "parts c1 = parts c2" and "bpm c1 = bpm c2" and "octaveAdjust c1 = octaveAdjust c2"
  shows "download pf send lk c1 j = download pf send lk c2 j"
  by (simp only: download_def assms(1) download_measures_cong [OF assms(2,3)])

text \<open>
  Two runs that both go through send the same commands, whatever the two serial ports
  are.
\<close>

lemma download_notes_two_runs:
  assumes "bpm c1 = bpm c2" and "octaveAdjust c1 = octaveAdjust c2"
    and "download_notes pf send1 c1 j ns lk1 cnt = Some (NO_ERROR, lk1', n1)"
    and "download_notes pf send2 c2 j ns lk2 cnt = Some (NO_ERROR, lk2', n2)"
  shows "\<exists>sent. snd lk1' = snd lk1 @ sent \<and> snd lk2' = snd lk2 @ sent \<and> n1 = n2"
  using assms(3,4)
proof (induction ns arbitrary: lk1 lk2 cnt)
  case Nil
  then show ?case by simp
next
  case (Cons n0 ns)
  have eq: "\<And>chan n k. noteToCmd pf c1 n0 chan j n k = noteToCmd pf c2 n0 chan j n k"
    using assms(1,2) by (rule noteToCmd_cong)
  from Cons.prems obtain cmdR cmdL m1 m2 where
    r1: "download_notes pf send1 c1 j ns m1 (cnt + 1) = Some (NO_ERROR, lk1', n1)" and
    s1: "snd m1 = snd lk1 @ [cmdR, cmdL]" and
    r2: "download_notes pf send2 c2 j ns m2 (cnt + 1) = Some (NO_ERROR, lk2', n2)" and
    s2: "snd m2 = snd lk2 @ [cmdR, cmdL]"
    by (auto simp: eq serial_send_def split: option.splits prod.splits if_splits)
  from Cons.IH [OF r1 r2] obtain sent where
    "snd lk1' = snd m1 @ sent" "snd lk2' = snd m2 @ sent" "n1 = n2" by blast
  with s1 s2 show ?case by simp
qed

lemma download_notes_code:
  "download_notes pf send c j ns lk cnt = Some (code, lk', n) \<Longrightarrow>
   code = NO_ERROR \<or> code = CMD_ERR"
  by (induction ns arbitrary: lk cnt)
     (auto split: option.splits prod.splits if_splits)

lemma download_measures_two_runs:
  assumes "bpm c1 = bpm c2" and "octaveAdjust c1 = octaveAdjust c2"
    and "download_measures pf send1 c1 j ms lk1 cnt = Some (NO_ERROR, lk1', n1)"
    and "download_measures pf send2 c2 j ms lk2 cnt = Some (NO_ERROR, lk2', n2)"
  shows "\<exists>sent. snd lk1' = snd lk1 @ sent \<and> snd lk2' = snd lk2 @ sent \<and> n1 = n2"
  using assms(3,4)
proof (induction ms arbitrary: lk1 lk2 cnt)
  case Nil
  then show ?case by simp
next
  case (Cons m ms)
  from Cons.prems(1) obtain m1 k1 where
    a1: "download_notes pf send1 c1 j (notes m) lk1 cnt = Some (NO_ERROR, m1, k1)" and
    b1: "download_measures pf send1 c1 j ms m1 k1 = Some (NO_ERROR, lk1', n1)"
    by (auto split: option.splits prod.splits if_splits)
  from Cons.prems(2) obtain m2 k2 where
    a2: "download_notes pf send2 c2 j (notes m) lk2 cnt = Some (NO_ERROR, m2, k2)" and
    b2: "download_measures pf send2 c2 j ms m2 k2 = Some (NO_ERROR, lk2', n2)"
    by (auto split: option.splits prod.splits if_splits)
  from download_notes_two_runs [OF assms(1,2) a1 a2] obtain sent where
    s: "snd m1 = snd lk1 @ sent" "snd m2 = snd lk2 @ sent" "k1 = k2" by blast
  from Cons.IH [OF b1 b2 [folded s(3)]] obtain sent' where
    "snd lk1' = snd m1 @ sent'" "snd lk2' = snd m2 @ sent'" "n1 = n2" by blast
  with s show ?case by simp
qed

text \<open>
  C9. The commands that \<open>download\<close> sends are a function of the parts and the tempo of
  the composition, of the configured \<open>octaveAdjust\<close> and of the jingle index: two
  compositions that agree on these give the same result on the same serial port, and
  two runs that each end with \<open>NO_ERROR\<close>, on any two serial ports, have sent the same
  sequence of commands.
\<close>

theorem download_deterministic:
  assumes "parts c1 = parts c2" and "bpm c1 = bpm c2" and "octaveAdjust c1 = octaveAdjust c2"
  shows "download pf send lk c1 jingleIdx = download pf send lk c2 jingleIdx \<and>
         (\<forall>(send1 :: 's1 transport) (send2 :: 's2 transport) lk1 lk2 lk1' lk2'.
            download pf send1 lk1 c1 jingleIdx = Some (NO_ERROR, lk1') \<longrightarrow>
            download pf send2 lk2 c2 jingleIdx = Some (NO_ERROR, lk2') \<longrightarrow>
            (\<exists>sent. snd lk1' = snd lk1 @ sent \<and> snd lk2' = snd lk2 @ sent))"
proof (intro conjI allI impI)
  show "download pf send lk c1 jingleIdx = download pf send lk c2 jingleIdx"
    using assms by (rule download_cong)
next
  fix send1 :: "'s1 transport" and send2 :: "'s2 transport" and lk1 lk2 lk1' lk2'
  assume r1: "download pf send1 lk1 c1 jingleIdx = Some (NO_ERROR, lk1')"
    and r2: "download pf send2 lk2 c2 jingleIdx = Some (NO_ERROR, lk2')"
  show "\<exists>sent. snd lk1' = snd lk1 @ sent \<and> snd lk2' = snd lk2 @ sent"
  proof (cases "parts c2")
    case Nil
    with r1 r2 assms(1) show ?thesis by (simp add: download_def)
  next
    case (Cons p ps)
    let ?cmd = "''jingle add '' @ number pf (count_notes (measures p) 0) @ '' '' @
                number pf (count_notes (measures p) 0) @ LF"
    from r1 Cons assms(1) obtain m1 k1 where
      a1: "download_measures pf send1 c1 jingleIdx (measures p) m1 0 = Some (NO_ERROR, lk1', k1)"
      and s1: "snd m1 = snd lk1 @ [?cmd]"
      by (auto simp: download_def Let_def serial_send_def
          split: option.splits prod.splits if_splits)
    from r2 Cons obtain m2 k2 where
      a2: "download_measures pf send2 c2 jingleIdx (measures p) m2 0 = Some (NO_ERROR, lk2', k2)"
      and s2: "snd m2 = snd lk2 @ [?cmd]"
      by (auto simp: download_def Let_def serial_send_def
          split: option.splits prod.splits if_splits)
    from download_measures_two_runs [OF assms(2,3) a1 a2] obtain sent where
      "snd lk1' = snd m1 @ sent" "snd lk2' = snd m2 @ sent" by blast
    with s1 s2 show ?thesis by simp
  qed
qed

theorem download_deterministic_witness:
  "parts two_measures = parts (two_measures\<lparr>currPart := 0, backups := [3], measEndIdx := 2\<rparr>) \<and>
   download exact_platform accept_all ((), []) two_measures 0 =
     download exact_platform accept_all ((), [])
       (two_measures\<lparr>currPart := 0, backups := [3], measEndIdx := 2\<rparr>) 0 \<and>
   (\<exists>lk1' lk2'.
      download exact_platform accept_all ((), []) two_measures 0 = Some (NO_ERROR, lk1') \<and>
      download exact_platform counting (0, [])
        (two_measures\<lparr>currPart := 0, backups := [3], measEndIdx := 2\<rparr>) 0 = Some (NO_ERROR, lk2') \<and>
      snd lk1' = snd lk2')"
proof -
  let ?c2 = "two_measures\<lparr>currPart := 0, backups := [3], measEndIdx := 2\<rparr>"
  have h: "parts two_measures = parts ?c2" "bpm two_measures = bpm ?c2"
    "octaveAdjust two_measures = octaveAdjust ?c2"
    by simp_all
  note d = download_deterministic [OF h, of exact_platform _ _ 0]
  have r1: "download exact_platform accept_all ((), []) two_measures 0 =
     Some (NO_ERROR, (),
       [''jingle add 2 2'' @ LF,
        ''jingle note 0 right 0 128 440 600'' @ LF,
        ''jingle note 0 left 0 128 440 600'' @ LF,
        ''jingle note 0 right 1 128 220 1200'' @ LF,
        ''jingle note 0 left 1 128 220 1200'' @ LF])"
    by (simp add: download_def two_measures_def exact_platform_def accept_all_def
        serial_send_def noteToCmd_def decimal_number_def nat_number.simps)
  have r2: "download exact_platform counting (0, []) ?c2 0 =
     Some (NO_ERROR, 5,
       [''jingle add 2 2'' @ LF,
        ''jingle note 0 right 0 128 440 600'' @ LF,
        ''jingle note 0 left 0 128 440 600'' @ LF,
        ''jingle note 0 right 1 128 220 1200'' @ LF,
        ''jingle note 0 left 1 128 220 1200'' @ LF])"
    by (simp add: download_def two_measures_def exact_platform_def counting_def
        serial_send_def noteToCmd_def decimal_number_def nat_number.simps)
  from d [of accept_all "((), [])"] have
    e: "download exact_platform accept_all ((), []) two_measures 0 =
        download exact_platform accept_all ((), []) ?c2 0"
    and t: "\<exists>sent. snd ((), [''jingle add 2 2'' @ LF,
        ''jingle note 0 right 0 128 440 600'' @ LF,
        ''jingle note 0 left 0 128 440 600'' @ LF,
        ''jingle note 0 right 1 128 220 1200'' @ LF,
        ''jingle note 0 left 1 128 220 1200'' @ LF]) = snd ((), []) @ sent \<and>
       snd (5 :: nat, [''jingle add 2 2'' @ LF,
        ''jingle note 0 right 0 128 440 600'' @ LF,
        ''jingle note 0 left 0 128 440 600'' @ LF,
        ''jingle note 0 right 1 128 220 1200'' @ LF,
        ''jingle note 0 left 1 128 220 1200'' @ LF]) = snd (0 :: nat, []) @ sent"
    using r1 r2 by blast+
  from h(1) e r1 r2 show ?thesis by simp
qed

subsection \<open>The loops over the tokens, one token at a time\<close>

lemma parseXmlBackup_children_end:
  "xml_tokenType (readNext xml) = EndElement \<Longrightarrow> xml_name (readNext xml) = ''backup'' \<Longrightarrow>
   parseXmlBackup_children pf xml duration = Some (readNext xml, duration)"
  by (subst parseXmlBackup_children.simps) (simp add: Let_def)

lemma parseXmlBackup_children_duration:
  "xml_tokenType (readNext xml) = StartElement \<Longrightarrow> xml_name (readNext xml) = ''duration'' \<Longrightarrow>
   parseXmlBackup_children pf xml duration =
     parseXmlBackup_children pf (readNext (readNext xml))
       (toUInt pf (xml_text (readNext (readNext xml))))"
  by (subst parseXmlBackup_children.simps) (simp add: Let_def)

lemma parseXmlBackup_children_skip:
  "\<not> (xml_tokenType (readNext xml) = EndElement \<and> xml_name (readNext xml) = ''backup'') \<Longrightarrow>
   \<not> (xml_tokenType (readNext xml) = StartElement \<and> xml_name (readNext xml) = ''duration'') \<Longrightarrow>
   parseXmlBackup_children pf xml duration = parseXmlBackup_children pf (readNext xml) duration"
  by (subst parseXmlBackup_children.simps) (auto simp: Let_def)

lemmas parseXmlBackup_children_eval =
  parseXmlBackup_children_end parseXmlBackup_children_duration parseXmlBackup_children_skip

lemma parseXmlPitch_children_end:
  "xml_tokenType (readNext xml) = EndElement \<Longrightarrow> xml_name (readNext xml) = ''pitch'' \<Longrightarrow>
   parseXmlPitch_children pf xml step alter octave = Some (readNext xml, step, alter, octave)"
  by (subst parseXmlPitch_children.simps) (simp add: Let_def)

lemma parseXmlPitch_children_step:
  "xml_tokenType (readNext xml) = StartElement \<Longrightarrow> xml_name (readNext xml) = ''step'' \<Longrightarrow>
   parseXmlPitch_children pf xml step alter octave =
     (case xml_text (readNext (readNext xml)) of
        [] \<Rightarrow> None
      | ch # r \<Rightarrow> parseXmlPitch_children pf (readNext (readNext xml)) ch alter octave)"
  by (subst parseXmlPitch_children.simps) (simp add: Let_def)

lemma parseXmlPitch_children_alter:
  "xml_tokenType (readNext xml) = StartElement \<Longrightarrow> xml_name (readNext xml) = ''alter'' \<Longrightarrow>
   parseXmlPitch_children pf xml step alter octave =
     parseXmlPitch_children pf (readNext (readNext xml)) step
       (toInt pf (xml_text (readNext (readNext xml)))) octave"
  by (subst parseXmlPitch_children.simps) (simp add: Let_def)

lemma parseXmlPitch_children_octave:
  "xml_tokenType (readNext xml) = StartElement \<Longrightarrow> xml_name (readNext xml) = ''octave'' \<Longrightarrow>
   parseXmlPitch_children pf xml step alter octave =
     parseXmlPitch_children pf (readNext (readNext xml)) step alter
       (toInt pf (xml_text (readNext (readNext xml))))"
  by (subst parseXmlPitch_children.simps) (simp add: Let_def)

lemma parseXmlPitch_children_skip:
  "\<not> (xml_tokenType (readNext xml) = EndElement \<and> xml_name (readNext xml) = ''pitch'') \<Longrightarrow>
   \<not> (xml_tokenType (readNext xml) = StartElement \<and>
       xml_name (readNext xml) \<in> {''step'', ''alter'', ''octave''}) \<Longrightarrow>
   parseXmlPitch_children pf xml step alter octave =
     parseXmlPitch_children pf (readNext xml) step alter octave"
  by (subst parseXmlPitch_children.simps) (auto simp: Let_def)

lemmas parseXmlPitch_children_eval =
  parseXmlPitch_children_end parseXmlPitch_children_step parseXmlPitch_children_alter
  parseXmlPitch_children_octave parseXmlPitch_children_skip

lemma parseXmlNote_children_end:
  "xml_tokenType (readNext xml) = EndElement \<Longrightarrow> xml_name (readNext xml) = ''note'' \<Longrightarrow>
   parseXmlNote_children pf c xml raw len freq isChord =
     Some (readNext xml, NO_ERROR, raw, len, freq, isChord)"
  by (subst parseXmlNote_children.simps) (simp add: Let_def)

lemma parseXmlNote_children_pitch:
  "xml_tokenType (readNext xml) = StartElement \<Longrightarrow> xml_name (readNext xml) = ''pitch'' \<Longrightarrow>
   parseXmlNote_children pf c xml raw len freq isChord =
     (case parseXmlPitch pf (readNext xml) freq of
        None \<Rightarrow> None
      | Some (xml2, code, freq') \<Rightarrow>
          if code \<noteq> NO_ERROR then Some (xml2, code, raw, len, freq', isChord)
          else parseXmlNote_children pf c xml2 raw len freq' isChord)"
  by (subst parseXmlNote_children.simps) (simp add: Let_def)

lemma parseXmlNote_children_duration:
  "xml_tokenType (readNext xml) = StartElement \<Longrightarrow> xml_name (readNext xml) = ''duration'' \<Longrightarrow>
   parseXmlNote_children pf c xml raw len freq isChord =
     parseXmlNote_children pf c (readNext (readNext xml))
       (toUInt pf (xml_text (readNext (readNext xml))))
       (fdiv pf (u2f pf (toUInt pf (xml_text (readNext (readNext xml))))) (u2f pf (currDivisions c)))
       freq isChord"
  by (subst parseXmlNote_children.simps) (simp add: Let_def)

lemma parseXmlNote_children_chord:
  "xml_tokenType (readNext xml) = StartElement \<Longrightarrow> xml_name (readNext xml) = ''chord'' \<Longrightarrow>
   parseXmlNote_children pf c xml raw len freq isChord =
     parseXmlNote_children pf c (readNext xml) raw len freq True"
  by (subst parseXmlNote_children.simps) (simp add: Let_def)

lemma parseXmlNote_children_skip:
  "\<not> (xml_tokenType (readNext xml) = EndElement \<and> xml_name (readNext xml) = ''note'') \<Longrightarrow>
   \<not> (xml_tokenType (readNext xml) = StartElement \<and>
       xml_name (readNext xml) \<in> {''pitch'', ''duration'', ''chord''}) \<Longrightarrow>
   parseXmlNote_children pf c xml raw len freq isChord =
     parseXmlNote_children pf c (readNext xml) raw len freq isChord"
  by (subst parseXmlNote_children.simps) (auto simp: Let_def)

lemmas parseXmlNote_children_eval =
  parseXmlNote_children_end parseXmlNote_children_pitch parseXmlNote_children_duration
  parseXmlNote_children_chord parseXmlNote_children_skip

lemma parse_loop_end:
  "xml_tokenType (readNext xml) = EndDocument \<Longrightarrow> parse_loop pf xml c = Some (NO_ERROR, c)"
  by (subst parse_loop.simps) simp

lemma parse_loop_token:
  "xml_tokenType (readNext xml) \<noteq> EndDocument \<Longrightarrow>
   parse_loop pf xml c =
     (case parse_token pf (readNext xml) c of
        None \<Rightarrow> None
      | Some (xml', code, c') \<Rightarrow>
          if code \<noteq> NO_ERROR then Some (code, c') else parse_loop pf xml' c')"
  by (subst parse_loop.simps) simp

lemmas reader_eval =
  readNext_def openReader_def xml_tokenType_def xml_name_def xml_text_def
  startElement_def endElement_def characters_def startDocument_def endDocument_def

text \<open>The equations that run the parser on the examples.\<close>

lemmas parse_eval =
  parse_def Composition_new_def reader_eval parse_loop_end
  parse_loop_token parse_token_def parseXmlBackup_def parseXmlBackup_children_eval
  parseXmlBackup_push_def exact_platform_def decimal_toUInt_def decimal_toInt_def
  decimal_nat_def parseXmlNote_def parseXmlNote_children_eval parseXmlNote_enter_def
  parseXmlNote_store_def openMeasure_def elem_at_def currMeasure_def setCurrMeasure_def
  new_Part_def new_Measure_def parseXmlPitch_def parseXmlPitch_children_eval
  parseXmlPitch_freq_def int32_def step_half_steps_def parseXmlPitch_factor.simps
  C_0_FREQ_def twelth_root_of_two_def of_rat_divide parse_measure_def parse_part_end_def
  drainBackups.simps addMeasures.simps popBackup_def

subsection \<open>parseXmlPitch\<close>

text \<open>The loop multiplies the factor once for each half step above zero.\<close>

lemma parseXmlPitch_factor_funpow:
  "parseXmlPitch_factor pf n cnt factor =
     ((\<lambda>x. dmul pf x (twelth_root_of_two pf)) ^^ nat (n - cnt)) factor"
proof (induction pf n cnt factor rule: parseXmlPitch_factor.induct)
  case (1 pf n cnt factor)
  show ?case
  proof (cases "cnt < n")
    case True
    then have "nat (n - cnt) = Suc (nat (n - (cnt + 1)))" by simp
    with True "1.IH"
      funpow_swap1 [of "\<lambda>x. dmul pf x (twelth_root_of_two pf)" "nat (n - (cnt + 1))" factor]
    show ?thesis
      by (subst parseXmlPitch_factor.simps) simp
  next
    case False
    then show ?thesis
      by (subst parseXmlPitch_factor.simps) simp
  qed
qed

lemma exact_mul_funpow:
  "((\<lambda>x. exact_mul x (Finite r)) ^^ k) (Finite a) = Finite (a * r ^ k)"
  by (induction k arbitrary: a) (simp_all add: funpow_swap1 mult.assoc)

lemma step_half_steps_table: "step_half_steps step = map_of step_table step"
  by (simp add: step_half_steps_def step_table_def)

text \<open>
  The frequency that \<open>parseXmlPitch\<close> computes. The half steps are \<open>octave * 12 + alter\<close> plus the entry of
  the step letter in the table; when no \<open>int\<close> overflows on the way, the frequency is
  \<open>C_0_FREQ\<close> times the factor that starts at 1 and is multiplied by the constant
  \<open>twelth_root_of_two\<close> once for each half step, the result converted to \<open>float\<close>.
  The number of multiplications is \<open>nat\<close> of the half steps: none when the half steps
  are negative, so that the frequency is then that of \<open>C_0_FREQ\<close> itself. A step
  letter that is not in the table gives \<open>XML_PARSE\<close>.
\<close>

lemma parseXmlPitch_freq_value:
  assumes "int32 (octave * 12) \<noteq> None" and "int32 (octave * 12 + alter) \<noteq> None"
  shows "(map_of step_table step = None \<longrightarrow>
            parseXmlPitch_freq pf step alter octave = Some (Inl XML_PARSE)) \<and>
         (\<forall>k. map_of step_table step = Some k \<longrightarrow> int32 (octave * 12 + alter + k) \<noteq> None \<longrightarrow>
            parseXmlPitch_freq pf step alter octave =
              Some (Inr (d2f pf (dmul pf (C_0_FREQ pf)
                 (((\<lambda>factor. dmul pf factor (twelth_root_of_two pf))
                     ^^ nat (octave * 12 + alter + k)) (dlit pf 1))))))"
  using assms
  by (auto simp: parseXmlPitch_freq_def step_half_steps_table parseXmlPitch_factor_funpow
      int32_def split: option.splits)

text \<open>
  With exact arithmetic: D of octave 0 is two half steps above C of octave 0, C flat of
  octave 0 is one half step below it and has the frequency of C of octave 0, and H is
  no step letter.
\<close>

lemma parseXmlPitch_freq_examples:
  "parseXmlPitch_freq exact_platform (CHR ''D'') 0 0 =
     Some (Inr (Finite (1635 / 100 * (1059463094359 / 1000000000000) ^ 2))) \<and>
   parseXmlPitch_freq exact_platform (CHR ''C'') (- 1) 0 = Some (Inr (Finite (1635 / 100))) \<and>
   parseXmlPitch_freq exact_platform (CHR ''H'') 0 4 = Some (Inl XML_PARSE)"
proof -
  have a: "int32 (0 * 12) \<noteq> None" "int32 (0 * 12 + 0) \<noteq> None" "int32 (0 * 12 + 0 + 2) \<noteq> None"
    "int32 (0 * 12 + (- 1)) \<noteq> None" "int32 (0 * 12 + (- 1) + 0) \<noteq> None"
    "int32 (4 * 12) \<noteq> None" "int32 (4 * 12 + 0) \<noteq> None"
    by (simp_all add: int32_def)
  have t: "map_of step_table (CHR ''D'') = Some 2" "map_of step_table (CHR ''C'') = Some 0"
    "map_of step_table (CHR ''H'') = None"
    by (simp_all add: step_table_def)
  from parseXmlPitch_freq_value [OF a(1,2), of "CHR ''D''" exact_platform] t(1) a(3)
  have "parseXmlPitch_freq exact_platform (CHR ''D'') 0 0 =
     Some (Inr (d2f exact_platform (dmul exact_platform (C_0_FREQ exact_platform)
                 (((\<lambda>factor. dmul exact_platform factor (twelth_root_of_two exact_platform))
                     ^^ nat (0 * 12 + 0 + 2)) (dlit exact_platform 1)))))"
    by blast
  moreover
  from parseXmlPitch_freq_value [OF a(1,4), of "CHR ''C''" exact_platform] t(2) a(5)
  have "parseXmlPitch_freq exact_platform (CHR ''C'') (- 1) 0 =
     Some (Inr (d2f exact_platform (dmul exact_platform (C_0_FREQ exact_platform)
                 (((\<lambda>factor. dmul exact_platform factor (twelth_root_of_two exact_platform))
                     ^^ nat (0 * 12 + (- 1) + 0)) (dlit exact_platform 1)))))"
    by blast
  moreover
  from parseXmlPitch_freq_value [OF a(6,7), of "CHR ''H''" exact_platform] t(3)
  have "parseXmlPitch_freq exact_platform (CHR ''H'') 0 4 = Some (Inl XML_PARSE)"
    by blast
  ultimately show ?thesis
    by (simp add: exact_platform_def C_0_FREQ_def twelth_root_of_two_def exact_mul_funpow
        of_rat_divide)
qed

text \<open>
  C5. The specification has the frequency of a pitch be \<open>16.35\<close> times the twelfth
  root of two to the power of the half steps \<open>octave * 12 + alter + step_offset\<close>, also
  when the half steps are negative. For C flat of octave 0 the half steps are \<open>-1\<close>:
  the loop of \<open>parseXmlPitch\<close> does not run, and the function returns \<open>16.35\<close>, the
  frequency of C of octave 0, where the specification has \<open>16.35\<close> times the constant
  to the power \<open>-1\<close>.
\<close>

theorem parseXmlPitch_below_C0:
  "parseXmlPitch exact_platform (readNext (openReader c_flat_pitch)) (Finite 0) =
     Some (\<lparr>token = endElement ''pitch'', pending = []\<rparr>, NO_ERROR, Finite (1635 / 100)) \<and>
   parseXmlPitch_freq exact_platform (CHR ''C'') (- 1) 0 = Some (Inr (Finite (1635 / 100))) \<and>
   Finite (1635 / 100) \<noteq>
   Finite (1635 / 100 * (1059463094359 / 1000000000000) powi (0 * 12 + (- 1) + 0))"
  by (simp add: c_flat_pitch_def parse_eval power_int_minus)

text \<open>
  The reader is at the start of the element \<open>pitch\<close> there, so that the result is not
  that of the first test of \<open>parseXmlPitch\<close>.
\<close>

theorem parseXmlPitch_below_C0_witness:
  "xml_name (readNext (openReader c_flat_pitch)) = ''pitch'' \<and>
   xml_tokenType (readNext (openReader c_flat_pitch)) = StartElement \<and>
   parseXmlPitch exact_platform (readNext (openReader c_flat_pitch)) (Finite 0) \<noteq>
     Some (readNext (openReader c_flat_pitch), XML_PARSE, Finite 0)"
  using parseXmlPitch_below_C0 by (simp add: c_flat_pitch_def reader_eval)

subsection \<open>parseXmlNote: the note is stored\<close>

lemma openMeasure_props:
  assumes "openMeasure c = Some c1"
  shows "unat (currPart c1) < List.length (parts c1)"
    and "measures (parts c1 ! unat (currPart c1)) \<noteq> []"
    and "backups c1 = backups c" and "prevParts c1 = prevParts c"
    and "currPart c1 = currPart c"
  using assms
  by (auto simp: openMeasure_def elem_at_def Let_def split: if_splits)



lemma setCurrMeasure_stacks:
  "backups (setCurrMeasure c meas) = backups c"
  "prevParts (setCurrMeasure c meas) = prevParts c"
  by (simp_all add: setCurrMeasure_def)


text \<open>
  The store of a note without the chord marker while \<open>backups\<close> is not empty.
\<close>

lemma parseXmlNote_store_backup:
  assumes "openMeasure c = Some c1" and "backups c = backup_dur # bs"
  shows "(raw_xml_duration > backup_dur \<longrightarrow>
            (\<exists>c2. parseXmlNote_store pf raw_xml_duration length' frequency False c = Some (XML_PARSE, c2) \<and>
                  backups c2 = backups c \<and> prevParts c2 = prevParts c)) \<and>
         (\<not> raw_xml_duration > backup_dur \<longrightarrow>
            (\<exists>c2. parseXmlNote_store pf raw_xml_duration length' frequency False c = Some (NO_ERROR, c2) \<and>
                  backups c2 = (backup_dur - raw_xml_duration) # bs \<and>
                  unat (backup_dur - raw_xml_duration) = unat backup_dur - unat raw_xml_duration \<and>
                  prevParts c2 = prevParts c))"
  using assms openMeasure_props(3,4) [OF assms(1)]
  by (auto simp: parseXmlNote_store_def Let_def setCurrMeasure_stacks unat_sub not_less)


lemma parseXmlNote_enter_stacks:
  assumes "parseXmlNote_enter c = Some c0" and "backups c = b # bs'"
  shows "backups c0 = (if b = 0 then bs' else b # bs')"
    and "prevParts c0 = (if b = 0 then tl (prevParts c) else prevParts c)"
  using assms
  by (auto simp: parseXmlNote_enter_def popBackup_def split: list.splits if_splits)

text \<open>
  A note whose child tokens are read without error is stored in the members that the
  entry has left.
\<close>

lemma parseXmlNote_stored:
  assumes "xml_name xml = ''note''" and "xml_tokenType xml = StartElement"
    and "parseXmlNote_enter c = Some c0"
    and "parseXmlNote_children pf c0 xml 0 (flit pf 0) (flit pf 0) False =
           Some (xml', NO_ERROR, raw, len, freq, isChord)"
    and "parseXmlNote_store pf raw len freq isChord c0 = Some (code, c2)"
  shows "parseXmlNote pf xml c = Some (xml', code, c2)"
  using assms by (simp add: parseXmlNote_def)




text \<open>
  C7. A note event whose child tokens are read without error and carry no chord
  marker, with \<open>parts[currPart]\<close> in range, appended while \<open>backups\<close> is not empty.
  The entry of the note comes first: it pops both stacks when the counter on top is 0
  and leaves them otherwise. With the stack \<open>backup_dur # bs\<close> that the entry leaves:
  if the duration of the note is greater than \<open>backup_dur\<close>, the result is \<open>XML_PARSE\<close>
  and both stacks are as the entry left them; otherwise the top counter is reduced by
  the duration, without wrap-around, and nothing else of the stacks changes.
\<close>

theorem note_consumes_backup:
  assumes "xml_name xml = ''note''" and "xml_tokenType xml = StartElement"
    and "parseXmlNote_enter c = Some c0"
    and "parseXmlNote_children pf c0 xml 0 (flit pf 0) (flit pf 0) False =
           Some (xml', NO_ERROR, raw_xml_duration, length', frequency, False)"
    and "openMeasure c0 = Some c1"
    and "backups c0 = backup_dur # bs"
  shows "(\<forall>b bs'. backups c = b # bs' \<longrightarrow>
            backups c0 = (if b = 0 then bs' else b # bs') \<and>
            prevParts c0 = (if b = 0 then tl (prevParts c) else prevParts c)) \<and>
         (raw_xml_duration > backup_dur \<longrightarrow>
            (\<exists>c2. parseXmlNote pf xml c = Some (xml', XML_PARSE, c2) \<and>
                  backups c2 = backups c0 \<and> prevParts c2 = prevParts c0)) \<and>
         (\<not> raw_xml_duration > backup_dur \<longrightarrow>
            (\<exists>c2. parseXmlNote pf xml c = Some (xml', NO_ERROR, c2) \<and>
                  backups c2 = (backup_dur - raw_xml_duration) # bs \<and>
                  unat (backup_dur - raw_xml_duration) = unat backup_dur - unat raw_xml_duration \<and>
                  prevParts c2 = prevParts c0))"
proof -
  note stored = parseXmlNote_stored [OF assms(1,2,3,4)]
  note store = parseXmlNote_store_backup [OF assms(5,6), of raw_xml_duration pf length' frequency]
  show ?thesis
  proof (intro conjI allI impI)
    fix b bs'
    assume "backups c = b # bs'"
    with assms(3) show "backups c0 = (if b = 0 then bs' else b # bs')"
      and "prevParts c0 = (if b = 0 then tl (prevParts c) else prevParts c)"
      by (rule parseXmlNote_enter_stacks)+
  next
    assume "raw_xml_duration > backup_dur"
    with store obtain c2 where
      s: "parseXmlNote_store pf raw_xml_duration length' frequency False c0 = Some (XML_PARSE, c2)"
      and r: "backups c2 = backups c0" "prevParts c2 = prevParts c0"
      by blast
    from stored [OF s] r
    show "\<exists>c2. parseXmlNote pf xml c = Some (xml', XML_PARSE, c2) \<and>
                backups c2 = backups c0 \<and> prevParts c2 = prevParts c0"
      by blast
  next
    assume "\<not> raw_xml_duration > backup_dur"
    with store obtain c2 where
      s: "parseXmlNote_store pf raw_xml_duration length' frequency False c0 = Some (NO_ERROR, c2)"
      and r: "backups c2 = (backup_dur - raw_xml_duration) # bs"
        "unat (backup_dur - raw_xml_duration) = unat backup_dur - unat raw_xml_duration"
        "prevParts c2 = prevParts c0"
      by blast
    from stored [OF s] r
    show "\<exists>c2. parseXmlNote pf xml c = Some (xml', NO_ERROR, c2) \<and>
                backups c2 = (backup_dur - raw_xml_duration) # bs \<and>
                unat (backup_dur - raw_xml_duration) = unat backup_dur - unat raw_xml_duration \<and>
                prevParts c2 = prevParts c0"
      by blast
  qed
qed

text \<open>
  On the example with the first part current: with the stack \<open>[4]\<close> a note of
  duration 8 is refused and the stack stays \<open>[4]\<close>, and a note of duration 3 leaves
  \<open>[1]\<close>; with the stack \<open>[0, 9]\<close> the entry pops the 0 and a note of duration 3
  leaves \<open>[6]\<close>; with the stack \<open>[0, 3]\<close> the entry pops the 0 and a note of duration
  8 is refused with the stack \<open>[3]\<close>.
\<close>

theorem note_consumes_backup_witness:
  "(\<exists>c2. parseXmlNote exact_platform (readNext (openReader (note_tokens False ''C'' ''8'')))
            (two_measures\<lparr>currPart := 0, backups := [4], prevParts := [0]\<rparr>)
            = Some (after_note, XML_PARSE, c2) \<and> backups c2 = [4] \<and> prevParts c2 = [0]) \<and>
   (\<exists>c2. parseXmlNote exact_platform (readNext (openReader (note_tokens False ''C'' ''3'')))
            (two_measures\<lparr>currPart := 0, backups := [4], prevParts := [0]\<rparr>)
            = Some (after_note, NO_ERROR, c2) \<and> backups c2 = [1] \<and> prevParts c2 = [0]) \<and>
   (\<exists>c2. parseXmlNote exact_platform (readNext (openReader (note_tokens False ''C'' ''3'')))
            (two_measures\<lparr>currPart := 0, backups := [0, 9], prevParts := [0, 0]\<rparr>)
            = Some (after_note, NO_ERROR, c2) \<and> backups c2 = [6] \<and> prevParts c2 = [0]) \<and>
   (\<exists>c2. parseXmlNote exact_platform (readNext (openReader (note_tokens False ''C'' ''8'')))
            (two_measures\<lparr>currPart := 0, backups := [0, 3], prevParts := [0, 0]\<rparr>)
            = Some (after_note, XML_PARSE, c2) \<and> backups c2 = [3] \<and> prevParts c2 = [0])"
proof -
  let ?x_long = "readNext (openReader (note_tokens False ''C'' ''8''))"
  let ?x_short = "readNext (openReader (note_tokens False ''C'' ''3''))"
  let ?c_four = "two_measures\<lparr>currPart := 0, backups := [4], prevParts := [0]\<rparr>"
  let ?c_zero_nine = "two_measures\<lparr>currPart := 0, backups := [0, 9], prevParts := [0, 0]\<rparr>"
  let ?c_nine = "two_measures\<lparr>currPart := 0, backups := [9], prevParts := [0]\<rparr>"
  let ?c_zero_three = "two_measures\<lparr>currPart := 0, backups := [0, 3], prevParts := [0, 0]\<rparr>"
  let ?c_three = "two_measures\<lparr>currPart := 0, backups := [3], prevParts := [0]\<rparr>"
  have st: "xml_name ?x_long = ''note''" "xml_tokenType ?x_long = StartElement"
    "xml_name ?x_short = ''note''" "xml_tokenType ?x_short = StartElement"
    by (simp_all add: note_tokens_def reader_eval)
  have en: "parseXmlNote_enter ?c_four = Some ?c_four" "parseXmlNote_enter ?c_zero_nine = Some ?c_nine"
    "parseXmlNote_enter ?c_zero_three = Some ?c_three"
    by (simp_all add: parseXmlNote_enter_def popBackup_def)
  have ch8: "parseXmlNote_children exact_platform c ?x_long 0 (flit exact_platform 0)
              (flit exact_platform 0) False =
            Some (after_note, NO_ERROR, 8, Finite 2, Finite (1635 / 100), False)"
    if "currDivisions c = 4" for c :: "exact Composition"
    using that by (simp add: note_tokens_def after_note_def parse_eval)
  have ch3: "parseXmlNote_children exact_platform c ?x_short 0 (flit exact_platform 0)
              (flit exact_platform 0) False =
            Some (after_note, NO_ERROR, 3, Finite (3 / 4), Finite (1635 / 100), False)"
    if "currDivisions c = 4" for c :: "exact Composition"
    using that by (simp add: note_tokens_def after_note_def parse_eval)
  have d: "currDivisions ?c_four = 4" "currDivisions ?c_nine = 4" "currDivisions ?c_three = 4"
    by (simp_all add: two_measures_def)
  have o: "openMeasure ?c_four = Some ?c_four" "openMeasure ?c_nine = Some ?c_nine" "openMeasure ?c_three = Some ?c_three"
    by (simp_all add: openMeasure_def two_measures_def elem_at_def)
  have b: "backups ?c_four = 4 # []" "backups ?c_nine = 9 # []" "backups ?c_three = 3 # []"
    by simp_all
  from note_consumes_backup [OF st(1,2) en(1) ch8 [OF d(1)] o(1) b(1)]
  have 1: "\<exists>c2. parseXmlNote exact_platform ?x_long ?c_four = Some (after_note, XML_PARSE, c2) \<and>
             backups c2 = [4] \<and> prevParts c2 = [0]"
    by simp
  from note_consumes_backup [OF st(3,4) en(1) ch3 [OF d(1)] o(1) b(1)]
  have 2: "\<exists>c2. parseXmlNote exact_platform ?x_short ?c_four = Some (after_note, NO_ERROR, c2) \<and>
             backups c2 = [1] \<and> prevParts c2 = [0]"
    by simp
  from note_consumes_backup [OF st(3,4) en(2) ch3 [OF d(2)] o(2) b(2)]
  have 3: "\<exists>c2. parseXmlNote exact_platform ?x_short ?c_zero_nine = Some (after_note, NO_ERROR, c2) \<and>
             backups c2 = [6] \<and> prevParts c2 = [0]"
    by simp
  from note_consumes_backup [OF st(1,2) en(3) ch8 [OF d(3)] o(3) b(3)]
  have 4: "\<exists>c2. parseXmlNote exact_platform ?x_long ?c_zero_three = Some (after_note, XML_PARSE, c2) \<and>
             backups c2 = [3] \<and> prevParts c2 = [0]"
    by simp
  show ?thesis by (intro conjI 1 2 3 4)
qed

subsection \<open>The two stacks have the same depth\<close>

lemma popBackup_aligned:
  "popBackup c = Some c' \<Longrightarrow> stacks_aligned c \<Longrightarrow> stacks_aligned c'"
  by (auto simp: popBackup_def stacks_aligned_def split: list.splits)

lemma popBackup_defined:
  "stacks_aligned c \<Longrightarrow> backups c \<noteq> [] \<Longrightarrow> popBackup c \<noteq> None"
  by (auto simp: popBackup_def stacks_aligned_def split: list.splits)

lemma drainBackups_aligned:
  "drainBackups c = Some (code, c') \<Longrightarrow> stacks_aligned c \<Longrightarrow> stacks_aligned c'"
proof (induction c rule: drainBackups.induct)
  case (1 c)
  show ?case
  proof (cases "backups c")
    case Nil
    with "1.prems" show ?thesis
      by (subst (asm) drainBackups.simps) auto
  next
    case (Cons b bs)
    show ?thesis
    proof (cases "b = 0")
      case False
      with Cons "1.prems" show ?thesis
        by (subst (asm) drainBackups.simps) auto
    next
      case True
      with Cons "1.prems"(1) obtain c1 where p: "popBackup c = Some c1"
        and d: "drainBackups c1 = Some (code, c')"
        by (subst (asm) drainBackups.simps) (auto split: option.splits)
      from p "1.prems"(2) have "stacks_aligned c1" by (rule popBackup_aligned)
      with "1.IH" [OF Cons _ p d] True show ?thesis by simp
    qed
  qed
qed

text \<open>With stacks of the same depth, closing the backups never reads an empty stack.\<close>

lemma drainBackups_defined:
  "stacks_aligned c \<Longrightarrow> drainBackups c \<noteq> None"
proof (induction c rule: drainBackups.induct)
  case (1 c)
  show ?case
  proof (cases "backups c")
    case Nil
    then show ?thesis by (subst drainBackups.simps) simp
  next
    case (Cons b bs)
    show ?thesis
    proof (cases "b = 0")
      case False
      with Cons show ?thesis by (subst drainBackups.simps) simp
    next
      case True
      from "1.prems" Cons obtain c1 where p: "popBackup c = Some c1"
        using popBackup_defined [of c] by auto
      from p "1.prems" have "stacks_aligned c1" by (rule popBackup_aligned)
      with "1.IH" [OF Cons _ p] True have "drainBackups c1 \<noteq> None" by simp
      with Cons True p show ?thesis by (subst drainBackups.simps) simp
    qed
  qed
qed

lemma parse_measure_aligned:
  assumes "parse_measure c = Some (code, c')" and "stacks_aligned c"
  shows "stacks_aligned c'"
proof -
  from assms(1) obtain code1 c1 where d: "drainBackups c = Some (code1, c1)"
    and fr: "backups c' = backups c1" "prevParts c' = prevParts c1"
    by (auto simp: parse_measure_def split: option.splits if_splits)
  from d assms(2) have "stacks_aligned c1" by (rule drainBackups_aligned)
  with fr show ?thesis by (simp add: stacks_aligned_def)
qed

lemma parse_part_end_aligned:
  assumes "parse_part_end c = Some (code, c')" and "stacks_aligned c"
  shows "stacks_aligned c'"
proof -
  from assms(1) obtain code1 c1 where d: "drainBackups c = Some (code1, c1)"
    and fr: "backups c' = backups c1" "prevParts c' = prevParts c1"
    by (auto simp: parse_part_end_def split: option.splits if_splits)
  from d assms(2) have "stacks_aligned c1" by (rule drainBackups_aligned)
  with fr show ?thesis by (simp add: stacks_aligned_def)
qed

lemma parse_measure_defined: "stacks_aligned c \<Longrightarrow> parse_measure c \<noteq> None"
  using drainBackups_defined [of c] by (auto simp: parse_measure_def split: option.splits)

lemma parse_part_end_defined: "stacks_aligned c \<Longrightarrow> parse_part_end c \<noteq> None"
  using drainBackups_defined [of c] by (auto simp: parse_part_end_def split: option.splits)

lemma parseXmlBackup_push_aligned:
  "parseXmlBackup_push duration c = (code, c') \<Longrightarrow> stacks_aligned c \<Longrightarrow> stacks_aligned c'"
  by (auto simp: parseXmlBackup_push_def stacks_aligned_def split: if_splits)

lemma parseXmlBackup_cases:
  assumes "parseXmlBackup pf xml c = Some (xml', code, c')"
  shows "(code = XML_PARSE \<and> c' = c) \<or>
         (\<exists>duration. parseXmlBackup_push duration c = (code, c'))"
proof (cases "xml_name xml \<noteq> ''backup'' \<or> xml_tokenType xml \<noteq> StartElement")
  case True
  with assms show ?thesis by (simp add: parseXmlBackup_def)
next
  case False
  with assms obtain xml2 duration where
    "parseXmlBackup_children pf xml 0 = Some (xml2, duration)"
    and "parseXmlBackup_push duration c = (code, c')"
    by (cases "parseXmlBackup_children pf xml 0")
       (auto simp: parseXmlBackup_def split: prod.splits)
  then show ?thesis by blast
qed

lemma parseXmlBackup_aligned:
  assumes "parseXmlBackup pf xml c = Some (xml', code, c')" and "stacks_aligned c"
  shows "stacks_aligned c'"
  using parseXmlBackup_cases [OF assms(1)] assms(2)
  by (auto dest: parseXmlBackup_push_aligned)

lemma parseXmlBackup_pushes_both:
  assumes "parseXmlBackup pf xml c = Some (xml', NO_ERROR, c')"
  shows "\<exists>duration. backups c' = duration # backups c \<and> prevParts c' = currPart c # prevParts c"
  using parseXmlBackup_cases [OF assms]
  by (auto simp: parseXmlBackup_push_def split: if_splits)

lemma parseXmlNote_enter_aligned:
  "parseXmlNote_enter c = Some c' \<Longrightarrow> stacks_aligned c \<Longrightarrow> stacks_aligned c'"
  by (auto simp: parseXmlNote_enter_def split: list.splits if_splits dest: popBackup_aligned)

lemma parseXmlNote_store_aligned:
  assumes "parseXmlNote_store pf raw len freq isChord c = Some (code, c')"
    and "stacks_aligned c"
  shows "stacks_aligned c'"
proof -
  from assms(1) obtain c1 where o: "openMeasure c = Some c1"
    by (auto simp: parseXmlNote_store_def split: option.splits)
  note fr = openMeasure_props(3,4) [OF o]
  from assms(1) o
  have "List.length (backups c') = List.length (backups c1) \<and> prevParts c' = prevParts c1"
    by (auto simp: parseXmlNote_store_def Let_def setCurrMeasure_stacks
        split: if_splits list.splits)
  with fr assms(2) show ?thesis by (simp add: stacks_aligned_def)
qed

lemma parseXmlNote_cases:
  assumes "parseXmlNote pf xml c = Some (xml', code, c')"
  shows "c' = c \<or>
         (\<exists>c1. parseXmlNote_enter c = Some c1 \<and>
               (c' = c1 \<or> (\<exists>raw len freq isChord.
                   parseXmlNote_store pf raw len freq isChord c1 = Some (code, c'))))"
proof (cases "xml_name xml \<noteq> ''note'' \<or> xml_tokenType xml \<noteq> StartElement")
  case True
  with assms show ?thesis by (simp add: parseXmlNote_def)
next
  case False
  with assms obtain c1 where e: "parseXmlNote_enter c = Some c1"
    by (cases "parseXmlNote_enter c") (auto simp: parseXmlNote_def)
  with assms False obtain r where
    ch: "parseXmlNote_children pf c1 xml 0 (flit pf 0) (flit pf 0) False = Some r"
    by (cases "parseXmlNote_children pf c1 xml 0 (flit pf 0) (flit pf 0) False")
       (auto simp: parseXmlNote_def)
  obtain xml2 code2 raw len freq isChord where r: "r = (xml2, code2, raw, len, freq, isChord)"
    by (cases r) auto
  show ?thesis
  proof (cases "code2 \<noteq> NO_ERROR")
    case True
    with assms False e ch r have "c' = c1" by (simp add: parseXmlNote_def)
    with e show ?thesis by blast
  next
    case nf: False
    with assms False e ch r
    have "parseXmlNote_store pf raw len freq isChord c1 = Some (code, c')"
      by (cases "parseXmlNote_store pf raw len freq isChord c1") (auto simp: parseXmlNote_def)
    with e show ?thesis by blast
  qed
qed

lemma parseXmlNote_aligned:
  assumes "parseXmlNote pf xml c = Some (xml', code, c')" and "stacks_aligned c"
  shows "stacks_aligned c'"
  using parseXmlNote_cases [OF assms(1)] assms(2)
  by (auto dest: parseXmlNote_enter_aligned parseXmlNote_store_aligned)

lemma parse_token_aligned:
  assumes "parse_token pf xml c = Some (xml', code, c')" and "stacks_aligned c"
  shows "stacks_aligned c'"
proof -
  have al: "stacks_aligned (c\<lparr>bpm := b\<rparr>)" "stacks_aligned (c\<lparr>currDivisions := b\<rparr>)" for b
    using assms(2) by (simp_all add: stacks_aligned_def)
  from assms al show ?thesis
    by (auto simp: parse_token_def split: if_splits option.splits
        dest: parseXmlNote_aligned parseXmlBackup_aligned parse_measure_aligned
          parse_part_end_aligned)
qed

lemma parse_loop_aligned:
  "parse_loop pf xml c = Some y \<Longrightarrow> stacks_aligned c \<Longrightarrow> stacks_aligned (snd y)"
proof (induction pf xml c y rule: parse_loop.raw_induct [rotated 1, consumes 1, case_names step])
  case (step loop pf xml c y)
  show ?case
  proof (cases "xml_tokenType (readNext xml) = EndDocument")
    case True
    with step.hyps step.prems show ?thesis by auto
  next
    case False
    with step.hyps obtain xml' code c' where
      t: "parse_token pf (readNext xml) c = Some (xml', code, c')"
      and k: "if code \<noteq> NO_ERROR then y = (code, c') else loop pf xml' c' = Some y"
      by (auto split: option.splits if_splits)
    from t step.prems have a: "stacks_aligned c'" by (rule parse_token_aligned)
    show ?thesis
    proof (cases "code \<noteq> NO_ERROR")
      case True
      with k a show ?thesis by simp
    next
      case False
      with k have "loop pf xml' c' = Some y" by simp
      then show ?thesis using a by (rule step.IH)
    qed
  qed
qed

lemma parse_aligned:
  assumes "parse pf src c = Some (code, c')" and "stacks_aligned c"
  shows "stacks_aligned c'"
proof (cases src)
  case None
  with assms show ?thesis by (auto simp: parse_def stacks_aligned_def)
next
  case (Some toks)
  from assms(2) have "stacks_aligned (c\<lparr>parts := [], currPart := 0\<rparr>)"
    by (simp add: stacks_aligned_def)
  with parse_loop_aligned [of pf "openReader toks" "c\<lparr>parts := [], currPart := 0\<rparr>" "(code, c')"]
    assms(1) Some
  show ?thesis by (simp add: parse_def)
qed

text \<open>
  C8. From stacks of the same depth, each operation of the builder leaves stacks of
  the same depth, whether it succeeds or fails: \<open>parseXmlBackup\<close> (which, when it
  succeeds, has pushed one entry on each stack), \<open>parseXmlNote\<close>, the start of a
  measure and the end of a part (which both return, since no empty stack is read),
  and so does the whole of \<open>parse\<close>, which does not reset the stacks.
\<close>

theorem stacks_same_depth:
  assumes "stacks_aligned c"
  shows "(\<forall>xml xml' code c'. parseXmlBackup pf xml c = Some (xml', code, c') \<longrightarrow>
            stacks_aligned c' \<and>
            (code = NO_ERROR \<longrightarrow> List.length (backups c') = Suc (List.length (backups c)) \<and>
                                  List.length (prevParts c') = Suc (List.length (prevParts c)))) \<and>
         (\<forall>xml xml' code c'. parseXmlNote pf xml c = Some (xml', code, c') \<longrightarrow> stacks_aligned c') \<and>
         (\<exists>code c'. parse_measure c = Some (code, c') \<and> stacks_aligned c') \<and>
         (\<exists>code c'. parse_part_end c = Some (code, c') \<and> stacks_aligned c') \<and>
         (\<forall>src code c'. parse pf src c = Some (code, c') \<longrightarrow> stacks_aligned c')"
proof (intro conjI allI impI)
  fix xml xml' code c'
  assume r: "parseXmlBackup pf xml c = Some (xml', code, c')"
  from r assms show "stacks_aligned c'" by (rule parseXmlBackup_aligned)
  assume "code = NO_ERROR"
  with r parseXmlBackup_pushes_both [of pf xml c xml' c']
  show "List.length (backups c') = Suc (List.length (backups c))"
    and "List.length (prevParts c') = Suc (List.length (prevParts c))"
    by auto
next
  fix xml xml' code c'
  assume "parseXmlNote pf xml c = Some (xml', code, c')"
  then show "stacks_aligned c'" using assms by (rule parseXmlNote_aligned)
next
  from parse_measure_defined [OF assms] obtain code c' where
    r: "parse_measure c = Some (code, c')" by auto
  from r assms have "stacks_aligned c'" by (rule parse_measure_aligned)
  with r show "\<exists>code c'. parse_measure c = Some (code, c') \<and> stacks_aligned c'" by blast
next
  from parse_part_end_defined [OF assms] obtain code c' where
    r: "parse_part_end c = Some (code, c')" by auto
  from r assms have "stacks_aligned c'" by (rule parse_part_end_aligned)
  with r show "\<exists>code c'. parse_part_end c = Some (code, c') \<and> stacks_aligned c'" by blast
next
  fix src code c'
  assume "parse pf src c = Some (code, c')"
  then show "stacks_aligned c'" using assms by (rule parse_aligned)
qed

text \<open>
  The file of two voices is parsed from the members of the constructor, whose stacks
  are both empty: the backup pushes on both stacks, the end of the part pops both, and
  the depths are the same at the end. So are they after the file that only holds a
  backup, where both stacks keep their entry.
\<close>

lemma parse_two_voices:
  "\<exists>c'. parse exact_platform (Some two_voices) (Composition_new exact_platform ''a.xml'')
          = Some (NO_ERROR, c') \<and> List.length (parts c') = 2"
  by (simp add: parse_def two_voices_def Composition_new_def reader_eval parse_loop_end
      parse_loop_token parse_token_def parseXmlBackup_def parseXmlBackup_children_eval
      parseXmlBackup_push_def exact_platform_def decimal_toUInt_def decimal_toInt_def
      decimal_nat_def parseXmlNote_def parseXmlNote_children_eval parseXmlNote_enter_def
      parseXmlNote_store_def openMeasure_def elem_at_def currMeasure_def setCurrMeasure_def
      new_Part_def new_Measure_def parseXmlPitch_def parseXmlPitch_children_eval
      parseXmlPitch_freq_def int32_def step_half_steps_def parseXmlPitch_factor.simps
      C_0_FREQ_def twelth_root_of_two_def of_rat_divide parse_measure_def parse_part_end_def
      drainBackups.simps addMeasures.simps popBackup_def)

lemma parse_backup_only:
  "parse exact_platform (Some backup_only) (Composition_new exact_platform ''a.xml'') =
     Some (NO_ERROR, (Composition_new exact_platform ''a.xml'')
                       \<lparr>currPart := 1, backups := [4], prevParts := [0]\<rparr>)"
  by (simp add: parse_def backup_only_def Composition_new_def reader_eval parse_loop_end
      parse_loop_token parse_token_def parseXmlBackup_def parseXmlBackup_children_eval
      parseXmlBackup_push_def exact_platform_def decimal_toUInt_def decimal_nat_def)

theorem stacks_same_depth_witness:
  "stacks_aligned (Composition_new exact_platform ''a.xml'') \<and>
   (\<exists>c'. parse exact_platform (Some two_voices) (Composition_new exact_platform ''a.xml'')
            = Some (NO_ERROR, c') \<and> stacks_aligned c') \<and>
   (\<exists>c'. parse exact_platform (Some backup_only) (Composition_new exact_platform ''a.xml'')
            = Some (NO_ERROR, c') \<and> backups c' = [4] \<and> stacks_aligned c') \<and>
   (\<exists>xml' c'. parseXmlBackup exact_platform (readNext (readNext (openReader backup_only)))
                (Composition_new exact_platform ''a.xml'') = Some (xml', NO_ERROR, c') \<and>
              List.length (backups c') = 1 \<and> List.length (prevParts c') = 1)"
proof -
  let ?c = "Composition_new exact_platform ''a.xml''"
  have a: "stacks_aligned ?c"
    by (simp add: stacks_aligned_def Composition_new_def)
  note s = stacks_same_depth [OF a, of exact_platform]
  from parse_two_voices obtain c1 where
    p1: "parse exact_platform (Some two_voices) ?c = Some (NO_ERROR, c1)" by blast
  with s have a1: "stacks_aligned c1" by blast
  from s parse_backup_only
  have a2: "stacks_aligned (?c\<lparr>currPart := 1, backups := [4], prevParts := [0]\<rparr>)" by blast
  have b: "parseXmlBackup exact_platform (readNext (readNext (openReader backup_only))) ?c =
    Some (readNext (readNext (readNext (readNext (readNext (readNext (openReader backup_only)))))),
          NO_ERROR, ?c\<lparr>backups := [4], prevParts := [0], currPart := 1\<rparr>)"
    by (simp add: backup_only_def Composition_new_def reader_eval parseXmlBackup_def
        parseXmlBackup_children_eval parseXmlBackup_push_def exact_platform_def
        decimal_toUInt_def decimal_nat_def)
  with s have "List.length (backups (?c\<lparr>backups := [4], prevParts := [0], currPart := 1\<rparr>)) =
      Suc (List.length (backups ?c))" by blast
  with a p1 a1 parse_backup_only a2 b show ?thesis
    by (auto simp: Composition_new_def)
qed

subsection \<open>The end of the document\<close>

text \<open>
  C4, as the specification states it, fails on the file that only holds a backup: the end of the
  document is reached with the backup of duration 4 still on the stack, and \<open>parse\<close>
  returns \<open>NO_ERROR\<close>.
\<close>

theorem parse_open_backup_counterexample:
  "parse exact_platform (Some backup_only) (Composition_new exact_platform ''a.xml'') =
     Some (NO_ERROR, (Composition_new exact_platform ''a.xml'')
                       \<lparr>currPart := 1, backups := [4], prevParts := [0]\<rparr>) \<and>
   backups ((Composition_new exact_platform ''a.xml'')
              \<lparr>currPart := 1, backups := [4], prevParts := [0]\<rparr>) \<noteq> []"
  by (simp add: parse_def backup_only_def Composition_new_def reader_eval parse_loop_end
      parse_loop_token parse_token_def parseXmlBackup_def parseXmlBackup_children_eval
      parseXmlBackup_push_def exact_platform_def decimal_toUInt_def decimal_nat_def)

lemma drainBackups_open:
  "backups c = b # bs \<Longrightarrow> b \<noteq> 0 \<Longrightarrow> drainBackups c = Some (XML_PARSE, c)"
  by (subst drainBackups.simps) simp

text \<open>
  C4, as the code has it. At the end of the document the loop of \<open>parse\<close> returns
  \<open>NO_ERROR\<close> and leaves the members as they are, whatever \<open>backups\<close> holds. A backup
  that is still open, its counter on top of the stack not 0, is the error \<open>XML_PARSE\<close>
  where the start of a measure or the end of a part is reached.
\<close>

theorem parse_loop_end_of_document:
  "(xml_tokenType (readNext xml) = EndDocument \<longrightarrow> parse_loop pf xml c = Some (NO_ERROR, c)) \<and>
   (\<forall>b bs. backups c = b # bs \<longrightarrow> b \<noteq> 0 \<longrightarrow>
      (xml_tokenType (readNext xml) = StartElement \<and> xml_name (readNext xml) = ''measure'') \<or>
      (xml_tokenType (readNext xml) = EndElement \<and> xml_name (readNext xml) = ''part'') \<longrightarrow>
      parse_loop pf xml c = Some (XML_PARSE, c))"
proof (intro conjI allI impI)
  assume "xml_tokenType (readNext xml) = EndDocument"
  then show "parse_loop pf xml c = Some (NO_ERROR, c)" by (rule parse_loop_end)
next
  fix b bs
  assume b: "backups c = b # bs" "b \<noteq> 0"
    and t: "(xml_tokenType (readNext xml) = StartElement \<and> xml_name (readNext xml) = ''measure'') \<or>
      (xml_tokenType (readNext xml) = EndElement \<and> xml_name (readNext xml) = ''part'')"
  from b have d: "drainBackups c = Some (XML_PARSE, c)" by (rule drainBackups_open)
  from t have "parse_token pf (readNext xml) c = Some (readNext xml, XML_PARSE, c)"
    by (auto simp: parse_token_def parse_measure_def parse_part_end_def d)
  moreover from t have "xml_tokenType (readNext xml) \<noteq> EndDocument" by auto
  ultimately show "parse_loop pf xml c = Some (XML_PARSE, c)"
    by (simp add: parse_loop_token)
qed

theorem parse_loop_end_of_document_witness:
  "parse_loop exact_platform (openReader [endDocument])
     ((Composition_new exact_platform ''a.xml'')\<lparr>backups := [4], prevParts := [0]\<rparr>)
     = Some (NO_ERROR, (Composition_new exact_platform ''a.xml'')\<lparr>backups := [4], prevParts := [0]\<rparr>) \<and>
   parse_loop exact_platform (openReader [startElement ''measure'', endDocument])
     ((Composition_new exact_platform ''a.xml'')\<lparr>backups := [4], prevParts := [0]\<rparr>)
     = Some (XML_PARSE, (Composition_new exact_platform ''a.xml'')\<lparr>backups := [4], prevParts := [0]\<rparr>) \<and>
   parse_loop exact_platform (openReader [endElement ''part'', endDocument])
     ((Composition_new exact_platform ''a.xml'')\<lparr>backups := [4], prevParts := [0]\<rparr>)
     = Some (XML_PARSE, (Composition_new exact_platform ''a.xml'')\<lparr>backups := [4], prevParts := [0]\<rparr>)"
proof -
  let ?c = "(Composition_new exact_platform ''a.xml'')\<lparr>backups := [4], prevParts := [0]\<rparr>"
  have b: "backups ?c = 4 # []" "(4 :: u32) \<noteq> 0" by simp_all
  have 1: "xml_tokenType (readNext (openReader [endDocument])) = EndDocument"
    by (simp add: reader_eval)
  have 2: "xml_tokenType (readNext (openReader [startElement ''measure'', endDocument])) = StartElement
      \<and> xml_name (readNext (openReader [startElement ''measure'', endDocument])) = ''measure''"
    by (simp add: reader_eval)
  have 3: "xml_tokenType (readNext (openReader [endElement ''part'', endDocument])) = EndElement
      \<and> xml_name (readNext (openReader [endElement ''part'', endDocument])) = ''part''"
    by (simp add: reader_eval)
  from parse_loop_end_of_document [of "openReader [endDocument]" exact_platform ?c] 1
  have "parse_loop exact_platform (openReader [endDocument]) ?c = Some (NO_ERROR, ?c)"
    by blast
  moreover
  from parse_loop_end_of_document
         [of "openReader [startElement ''measure'', endDocument]" exact_platform ?c] 2 b
  have "parse_loop exact_platform (openReader [startElement ''measure'', endDocument]) ?c
          = Some (XML_PARSE, ?c)"
    by blast
  moreover
  from parse_loop_end_of_document
         [of "openReader [endElement ''part'', endDocument]" exact_platform ?c] 3 b
  have "parse_loop exact_platform (openReader [endElement ''part'', endDocument]) ?c
          = Some (XML_PARSE, ?c)"
    by blast
  ultimately show ?thesis by blast
qed

end
